theory Spec2Isabelle
  imports
    Complex_Main
    "HOL-Library.List_Lexorder"
    "HOL-Library.Multiset"
    "HOL-Library.Monad_Syntax"
begin

section \<open>Strings of the source language\<close>

text \<open>
  A JavaScript string is a sequence of UTF-16 code units; \<open>length\<close>, \<open>===\<close>, the
  default \<open>sort\<close> and the regular expressions of the source (none has the \<open>u\<close> flag)
  all work on code units. A code unit is modelled as a natural number and a string as
  a list of them. \<open>js\<close> writes an ASCII literal of the source.
\<close>

type_synonym jschar = nat
type_synonym jsstring = "jschar list"

definition js :: "string \<Rightarrow> jsstring" where
  "js s = map of_char s"

text \<open>
  The white space of \<open>String.prototype.trim\<close> and of the class \<open>\s\<close>: TAB, LF, VT, FF,
  CR, SP, NBSP, U+1680, U+2000..U+200A, U+2028, U+2029, U+202F, U+205F, U+3000, U+FEFF.
\<close>

definition isWhiteSpace :: "jschar \<Rightarrow> bool" where
  "isWhiteSpace c \<longleftrightarrow>
     c = 9 \<or> c = 10 \<or> c = 11 \<or> c = 12 \<or> c = 13 \<or> c = 32 \<or> c = 160 \<or> c = 5760 \<or>
     (8192 \<le> c \<and> c \<le> 8202) \<or> c = 8232 \<or> c = 8233 \<or> c = 8239 \<or> c = 8287 \<or>
     c = 12288 \<or> c = 65279"

definition trim :: "jsstring \<Rightarrow> jsstring" where
  "trim s = rev (dropWhile isWhiteSpace (rev (dropWhile isWhiteSpace s)))"

definition startsWith :: "jsstring \<Rightarrow> jsstring \<Rightarrow> bool" where
  "startsWith s p \<longleftrightarrow> take (length p) s = p"

text \<open>\<open>s.includes(p)\<close>: \<open>p\<close> occurs in \<open>s\<close> as a contiguous run.\<close>

fun includes_js :: "jsstring \<Rightarrow> jsstring \<Rightarrow> bool" where
  "includes_js [] p = (p = [])"
| "includes_js (c # cs) p = (startsWith (c # cs) p \<or> includes_js cs p)"

text \<open>\<open>s.split('\n')\<close>: the lines of \<open>s\<close>; the result is never empty.\<close>

fun splitLines :: "jsstring \<Rightarrow> jsstring list" where
  "splitLines [] = [[]]"
| "splitLines (c # cs) =
     (let ls = splitLines cs in if c = 10 then [] # ls else (c # hd ls) # tl ls)"

section \<open>Data model (types.ts)\<close>

text \<open>
  The interfaces of \<open>types.ts\<close> as records. Several interfaces share field names
  (\<open>key\<close>, \<open>file\<close>, \<open>line\<close>, \<open>text\<close>, \<open>context\<close>) and \<open>file\<close> and \<open>value\<close> are reserved
  words here, so every field carries the initials of its interface: \<open>tk_key\<close> is
  \<open>TranslationKey.key\<close>, \<open>le_value\<close> is \<open>LocaleEntry.value\<close>, \<open>ai_type\<close> is
  \<open>AuditIssue.type\<close>, \<open>hs_text\<close> is \<open>HardcodedString.text\<close>, \<open>sfc_template\<close> is
  \<open>ParsedVueSFC.template\<close>. An optional field (or one that may be \<open>null\<close>) is an
  \<open>option\<close>, \<open>None\<close> standing for \<open>undefined\<close>.
\<close>

datatype key_context = Template | Script

record TranslationKey =
  tk_key :: jsstring
  tk_file :: jsstring
  tk_line :: int
  tk_context :: key_context
  tk_isDynamic :: bool
  tk_rawPattern :: "jsstring option"

record LocaleEntry =
  le_key :: jsstring
  le_value :: jsstring
  le_file :: jsstring
  le_isEmpty :: bool

datatype confidence = High | Medium | Low

record HardcodedString =
  hs_text :: jsstring
  hs_file :: jsstring
  hs_line :: int
  hs_confidence :: confidence
  hs_context :: jsstring

datatype issue_type = missing_translation | hardcoded_text | empty_value | dynamic_key

datatype severity = error | warning | info

record AuditIssue =
  ai_type :: issue_type
  ai_severity :: severity
  ai_file :: jsstring
  ai_line :: int
  ai_key :: "jsstring option"
  ai_text :: "jsstring option"
  ai_message :: jsstring

record HardcodedTextRules =
  minLength :: int
  excludeAllCaps :: bool
  excludePatterns :: "jsstring list"

record ParsedVueSFC =
  sfc_filePath :: jsstring
  sfc_template :: "jsstring option"
  sfc_templateStartLine :: int
  sfc_script :: "jsstring option"
  sfc_scriptStartLine :: int
  sfc_scriptSetup :: "jsstring option"
  sfc_scriptSetupStartLine :: int

text \<open>
  A value of a parsed locale file: what \<open>JSON.parse\<close> or the fallback scanner returns.
  An object is the list of its entries in the order of \<open>Object.entries\<close>.
\<close>

datatype jsvalue =
    JString jsstring
  | JNumber rat
  | JBoolean bool
  | JNull
  | JArray "jsvalue list"
  | JObject "(jsstring \<times> jsvalue) list"

type_synonym jsobject = "(jsstring \<times> jsvalue) list"

section \<open>Catalog loader (locales.ts)\<close>

text \<open>
  \<open>flattenObject\<close>: the loop over \<open>Object.entries(obj)\<close>. \<open>flattenValue\<close> is the body of
  the loop for one entry whose full key is already built.
\<close>

fun flattenObject :: "jsobject \<Rightarrow> jsstring \<Rightarrow> jsstring \<Rightarrow> LocaleEntry list"
  and flattenValue :: "jsvalue \<Rightarrow> jsstring \<Rightarrow> jsstring \<Rightarrow> LocaleEntry list" where
  "flattenObject [] prefix file = []"
| "flattenObject (kv # rest) prefix file =
     flattenValue (snd kv) (if prefix \<noteq> [] then prefix @ js ''.'' @ fst kv else fst kv) file
     @ flattenObject rest prefix file"
| "flattenValue (JObject obj) fullKey file = flattenObject obj fullKey file"
| "flattenValue (JString v) fullKey file =
     [\<lparr>le_key = fullKey, le_value = v, le_file = file, le_isEmpty = (trim v = [])\<rparr>]"
| "flattenValue (JNumber n) fullKey file = []"
| "flattenValue (JBoolean b) fullKey file = []"
| "flattenValue JNull fullKey file = []"
| "flattenValue (JArray xs) fullKey file = []"

text \<open>
  \<open>createLocaleLookup\<close>: \<open>lookup.set(entry.key, entry)\<close> for every entry in order. The
  \<open>Map\<close> is a partial function from keys to entries.
\<close>

definition createLocaleLookup :: "LocaleEntry list \<Rightarrow> (jsstring \<rightharpoonup> LocaleEntry)" where
  "createLocaleLookup entries = foldl (\<lambda>lookup entry. lookup(le_key entry \<mapsto> entry)) Map.empty entries"

text \<open>
  \<open>loadLocaleEntries\<close>: reading the directory and parsing a file are input here. A file
  is given by its namespace (the base name without \<open>.ts\<close>), its path and what
  \<open>parseLocaleFile\<close> returned or threw; the files come in the order of the directory
  listing. The file \<open>index\<close> is skipped and a file whose parsing threw adds nothing.
\<close>

datatype jserror = SyntaxError | IOError

fun loadLocaleEntries :: "(jsstring \<times> jsstring \<times> (jserror + jsobject)) list \<Rightarrow> LocaleEntry list" where
  "loadLocaleEntries [] = []"
| "loadLocaleEntries (f # files) =
     (if fst f = js ''index'' then []
      else (case snd (snd f) of
              Inl e \<Rightarrow> []
            | Inr localeObj \<Rightarrow> flattenObject localeObj (fst f) (fst (snd f))))
     @ loadLocaleEntries files"

section \<open>Validator (validator.ts)\<close>

text \<open>
  \<open>getRelativePath\<close> of \<open>scanner.ts\<close> calls \<open>relative\<close> of the Node library, which is
  the parameter \<open>relative\<close> of every function that reports a path.
\<close>

definition getRelativePath ::
  "(jsstring \<Rightarrow> jsstring \<Rightarrow> jsstring) \<Rightarrow> jsstring \<Rightarrow> jsstring \<Rightarrow> jsstring" where
  "getRelativePath relative filePath projectRoot = relative projectRoot filePath"

text \<open>A template literal prints an absent \<open>rawPattern\<close> as \<open>undefined\<close>.\<close>

definition showOptional :: "jsstring option \<Rightarrow> jsstring" where
  "showOptional x = (case x of None \<Rightarrow> js ''undefined'' | Some s \<Rightarrow> s)"

definition dynamicKeyIssue ::
  "(jsstring \<Rightarrow> jsstring \<Rightarrow> jsstring) \<Rightarrow> jsstring \<Rightarrow> TranslationKey \<Rightarrow> AuditIssue" where
  "dynamicKeyIssue relative projectRoot k =
     \<lparr>ai_type = dynamic_key, ai_severity = info,
      ai_file = getRelativePath relative (tk_file k) projectRoot,
      ai_line = tk_line k,
      ai_key = tk_rawPattern k,
      ai_text = None,
      ai_message = js ''Dynamic translation key detected: '' @ showOptional (tk_rawPattern k)
                   @ js ''. Manual review required.''\<rparr>"

definition missingTranslationIssue ::
  "(jsstring \<Rightarrow> jsstring \<Rightarrow> jsstring) \<Rightarrow> jsstring \<Rightarrow> TranslationKey \<Rightarrow> AuditIssue" where
  "missingTranslationIssue relative projectRoot k =
     \<lparr>ai_type = missing_translation, ai_severity = error,
      ai_file = getRelativePath relative (tk_file k) projectRoot,
      ai_line = tk_line k,
      ai_key = Some (tk_key k),
      ai_text = None,
      ai_message = js ''Translation key '' @ [39] @ tk_key k @ [39]
                   @ js '' not found in English locale''\<rparr>"

definition emptyValueIssue ::
  "(jsstring \<Rightarrow> jsstring \<Rightarrow> jsstring) \<Rightarrow> jsstring \<Rightarrow> TranslationKey \<Rightarrow> AuditIssue" where
  "emptyValueIssue relative projectRoot k =
     \<lparr>ai_type = empty_value, ai_severity = warning,
      ai_file = getRelativePath relative (tk_file k) projectRoot,
      ai_line = tk_line k,
      ai_key = Some (tk_key k),
      ai_text = None,
      ai_message = js ''Translation key '' @ [39] @ tk_key k @ [39]
                   @ js '' has an empty value''\<rparr>"

text \<open>
  \<open>validateKeys\<close>: the loop over the call sites; each iteration pushes at most one
  issue. The three issue literals of the source are the three definitions above.
\<close>

fun validateKeys ::
  "(jsstring \<Rightarrow> jsstring \<Rightarrow> jsstring) \<Rightarrow> TranslationKey list \<Rightarrow> (jsstring \<rightharpoonup> LocaleEntry)
   \<Rightarrow> jsstring \<Rightarrow> AuditIssue list" where
  "validateKeys relative [] localeLookup projectRoot = []"
| "validateKeys relative (k # keys) localeLookup projectRoot =
     (if tk_isDynamic k then [dynamicKeyIssue relative projectRoot k]
      else (case localeLookup (tk_key k) of
              None \<Rightarrow> [missingTranslationIssue relative projectRoot k]
            | Some localeEntry \<Rightarrow>
                if le_isEmpty localeEntry then [emptyValueIssue relative projectRoot k] else []))
     @ validateKeys relative keys localeLookup projectRoot"

text \<open>
  \<open>countIssuesByType\<close>: the loop over the issues with its three counters; the \<open>switch\<close>
  has no case for \<open>hardcoded_text\<close>.
\<close>

record IssueCounts =
  missingTranslations :: nat
  emptyValues :: nat
  dynamicKeys :: nat

fun countLoop :: "IssueCounts \<Rightarrow> AuditIssue list \<Rightarrow> IssueCounts" where
  "countLoop counts [] = counts"
| "countLoop counts (issue # issues) =
     countLoop
       (case ai_type issue of
          missing_translation \<Rightarrow> counts\<lparr>missingTranslations := missingTranslations counts + 1\<rparr>
        | empty_value \<Rightarrow> counts\<lparr>emptyValues := emptyValues counts + 1\<rparr>
        | dynamic_key \<Rightarrow> counts\<lparr>dynamicKeys := dynamicKeys counts + 1\<rparr>
        | hardcoded_text \<Rightarrow> counts)
       issues"

definition countIssuesByType :: "AuditIssue list \<Rightarrow> IssueCounts" where
  "countIssuesByType issues =
     countLoop \<lparr>missingTranslations = 0, emptyValues = 0, dynamicKeys = 0\<rparr> issues"

section \<open>Unique keys (extractor.ts)\<close>

text \<open>
  \<open>getUniqueKeys\<close>: the \<open>Set\<close> is the list of its members in insertion order;
  \<open>Array.from(uniqueSet).sort()\<close> sorts by code units, the order of lists of code units.
\<close>

definition setAdd :: "jsstring \<Rightarrow> jsstring list \<Rightarrow> jsstring list" where
  "setAdd x uniqueSet = (if x \<in> set uniqueSet then uniqueSet else uniqueSet @ [x])"

fun collectUnique :: "jsstring list \<Rightarrow> TranslationKey list \<Rightarrow> jsstring list" where
  "collectUnique uniqueSet [] = uniqueSet"
| "collectUnique uniqueSet (k # keys) =
     collectUnique
       (if \<not> tk_isDynamic k \<and> tk_key k \<noteq> [] then setAdd (tk_key k) uniqueSet else uniqueSet)
       keys"

definition getUniqueKeys :: "TranslationKey list \<Rightarrow> jsstring list" where
  "getUniqueKeys keys = sort (collectUnique [] keys)"

section \<open>Regular expressions\<close>

text \<open>
  Every regular expression of the source is translated into a function that tries the
  pattern at one position: it takes the code unit before the position (for \<open>\b\<close>) and
  the text from the position on, and returns the capture the program reads together with
  the text after the match, or \<open>None\<close>. In each pattern a greedy repetition is followed by
  a code unit outside the repeated class (\<open>\s*\<close> by a parenthesis, a quote, \<open>$\<close> or \<open>t\<close>;
  \<open>\w+\<close> by \<open>-\<close> or \<open>=\<close>; a run of non-quotes by a quote), so giving a repetition less
  than its longest run never turns a failed attempt into a match: the longest run is the
  only candidate and the functions take it.
\<close>

definition isWordChar :: "jschar \<Rightarrow> bool" where
  "isWordChar c \<longleftrightarrow> (65 \<le> c \<and> c \<le> 90) \<or> (97 \<le> c \<and> c \<le> 122) \<or> (48 \<le> c \<and> c \<le> 57) \<or> c = 95"

definition isQuote :: "jschar \<Rightarrow> bool" where
  "isQuote c \<longleftrightarrow> c = 39 \<or> c = 34 \<or> c = 96"

definition backtick :: jschar where
  "backtick = 96"

definition skipSpaces :: "jsstring \<Rightarrow> jsstring" where
  "skipSpaces s = dropWhile isWhiteSpace s"

definition expect :: "jsstring \<Rightarrow> jsstring \<Rightarrow> jsstring option" where
  "expect p s = (if startsWith s p then Some (drop (length p) s) else None)"

definition expectOneOf :: "jschar list \<Rightarrow> jsstring \<Rightarrow> jsstring option" where
  "expectOneOf cls s = (case s of [] \<Rightarrow> None | c # cs \<Rightarrow> if c \<in> set cls then Some cs else None)"

definition optionalDollar :: "jsstring \<Rightarrow> jsstring" where
  "optionalDollar s = (case s of [] \<Rightarrow> s | c # cs \<Rightarrow> if c = 36 then cs else s)"

text \<open>\<open>t\s*\(\s*\<close> and \<open>\$?t\s*\(\s*\<close>: the head of a call.\<close>

definition plainCall :: "jsstring \<Rightarrow> jsstring option" where
  "plainCall s = do {
     s1 \<leftarrow> expect (js ''t'') s;
     s2 \<leftarrow> expect (js ''('') (skipSpaces s1);
     Some (skipSpaces s2) }"

definition dollarCall :: "jsstring \<Rightarrow> jsstring option" where
  "dollarCall s = plainCall (optionalDollar s)"

text \<open>\<open>(['"`])([^'"`]+)\1\<close>: group 2 and the text after the closing quote.\<close>

definition quotedKey :: "jsstring \<Rightarrow> (jsstring \<times> jsstring) option" where
  "quotedKey s =
     (case s of
        [] \<Rightarrow> None
      | q # cs \<Rightarrow>
          if isQuote q then
            (let body = takeWhile (\<lambda>c. \<not> isQuote c) cs;
                 rest = dropWhile (\<lambda>c. \<not> isQuote c) cs
             in if body \<noteq> [] \<and> startsWith rest [q] then Some (body, tl rest) else None)
          else None)"

text \<open>\<open>`([^`]+)`\<close>: group 1 and the text after the closing backtick.\<close>

definition backtickLiteral :: "jsstring \<Rightarrow> (jsstring \<times> jsstring) option" where
  "backtickLiteral s =
     (case s of
        [] \<Rightarrow> None
      | q # cs \<Rightarrow>
          if q = backtick then
            (let body = takeWhile (\<lambda>c. c \<noteq> backtick) cs;
                 rest = dropWhile (\<lambda>c. c \<noteq> backtick) cs
             in if body \<noteq> [] \<and> rest \<noteq> [] then Some (body, tl rest) else None)
          else None)"

text \<open>\<open>\w+\<close> and \<open>(?:-\w+)*\<close>.\<close>

definition wordRun :: "jsstring \<Rightarrow> jsstring option" where
  "wordRun s = (if takeWhile isWordChar s \<noteq> [] then Some (dropWhile isWordChar s) else None)"

function dashedWords :: "jsstring \<Rightarrow> jsstring" where
  "dashedWords s =
     (case s of
        [] \<Rightarrow> s
      | c # cs \<Rightarrow>
          if c = 45 \<and> takeWhile isWordChar cs \<noteq> [] then dashedWords (dropWhile isWordChar cs)
          else s)"
  by pat_completeness auto
termination
  by (relation "measure length") (auto simp: less_Suc_eq_le length_dropWhile_le)

text \<open>The three patterns of \<open>extractFromTemplate\<close>.\<close>

definition interpolationPattern :: "jschar option \<Rightarrow> jsstring \<Rightarrow> (jsstring \<times> jsstring) option" where
  "interpolationPattern prev s = do {
     s1 \<leftarrow> expect (js ''{{'') s;
     s2 \<leftarrow> dollarCall (skipSpaces s1);
     quotedKey s2 }"

definition boundAttrPattern :: "jschar option \<Rightarrow> jsstring \<Rightarrow> (jsstring \<times> jsstring) option" where
  "boundAttrPattern prev s = do {
     s1 \<leftarrow> expect (js '':'') s;
     s2 \<leftarrow> wordRun s1;
     s3 \<leftarrow> expect (js ''='') (dashedWords s2);
     s4 \<leftarrow> expectOneOf [34, 39] s3;
     s5 \<leftarrow> dollarCall (skipSpaces s4);
     quotedKey s5 }"

definition templateLiteralPattern :: "jschar option \<Rightarrow> jsstring \<Rightarrow> (jsstring \<times> jsstring) option" where
  "templateLiteralPattern prev s = do {
     s1 \<leftarrow> dollarCall s;
     backtickLiteral s1 }"

text \<open>
  The patterns of \<open>extractFromScript\<close>. \<open>\b\<close> before \<open>t\<close> holds when no word character
  precedes the position.
\<close>

definition wordBoundaryBefore :: "jschar option \<Rightarrow> bool" where
  "wordBoundaryBefore prev = (case prev of None \<Rightarrow> True | Some c \<Rightarrow> \<not> isWordChar c)"

definition simplePattern :: "jschar option \<Rightarrow> jsstring \<Rightarrow> (jsstring \<times> jsstring) option" where
  "simplePattern prev s =
     (if wordBoundaryBefore prev then do { s1 \<leftarrow> plainCall s; quotedKey s1 } else None)"

definition scriptLiteralPattern :: "jschar option \<Rightarrow> jsstring \<Rightarrow> (jsstring \<times> jsstring) option" where
  "scriptLiteralPattern prev s =
     (if wordBoundaryBefore prev then do { s1 \<leftarrow> plainCall s; backtickLiteral s1 } else None)"

text \<open>\<open>/useI18n\s*\(/\<close> and \<open>/const\s*\{\s*t\s*[,}]/\<close>; nothing is captured.\<close>

definition useI18nPattern :: "jschar option \<Rightarrow> jsstring \<Rightarrow> (jsstring \<times> jsstring) option" where
  "useI18nPattern prev s = do {
     s1 \<leftarrow> expect (js ''useI18n'') s;
     s2 \<leftarrow> expect (js ''('') (skipSpaces s1);
     Some ([], s2) }"

definition destructuredTPattern :: "jschar option \<Rightarrow> jsstring \<Rightarrow> (jsstring \<times> jsstring) option" where
  "destructuredTPattern prev s = do {
     s1 \<leftarrow> expect (js ''const'') s;
     s2 \<leftarrow> expect (js ''{'') (skipSpaces s1);
     s3 \<leftarrow> expect (js ''t'') (skipSpaces s2);
     s4 \<leftarrow> expectOneOf [44, 125] (skipSpaces s3);
     Some ([], s4) }"

text \<open>
  \<open>regex.test(s)\<close> without the \<open>g\<close> flag: the pattern matches at some position of \<open>s\<close>.
\<close>

fun regexTest :: "(jschar option \<Rightarrow> jsstring \<Rightarrow> (jsstring \<times> jsstring) option) \<Rightarrow> jschar option \<Rightarrow> jsstring \<Rightarrow> bool" where
  "regexTest m prev [] = (m prev [] \<noteq> None)"
| "regexTest m prev (c # cs) = (m prev (c # cs) \<noteq> None \<or> regexTest m (Some c) cs)"

text \<open>
  \<open>while ((match = regex.exec(line)) !== null)\<close> with the \<open>g\<close> flag: the matches from left
  to right, each search starting where the match before ended. A match is returned as
  its index, its text \<open>match[0]\<close> and the capture. \<open>execAll m prev i s\<close> scans \<open>s\<close>, which
  begins at index \<open>i\<close> of the line, after the code unit \<open>prev\<close>. An empty match would
  leave \<open>lastIndex\<close> where it is and the loop of the source would not end; no pattern of
  this program matches the empty string (the lemmas named \<open>_progress\<close> below), and the scan
  stops after such a match.
\<close>

function execAll ::
  "(jschar option \<Rightarrow> jsstring \<Rightarrow> (jsstring \<times> jsstring) option) \<Rightarrow> jschar option \<Rightarrow> nat \<Rightarrow> jsstring
   \<Rightarrow> (nat \<times> jsstring \<times> jsstring) list" where
  "execAll m prev i s =
     (case m prev s of
        Some (capture, rest) \<Rightarrow>
          (let n = length s - length rest in
           (i, take n s, capture) #
           (if length rest < length s then execAll m (Some (last (take n s))) (i + n) rest else []))
      | None \<Rightarrow>
          (case s of
             [] \<Rightarrow> []
           | c # cs \<Rightarrow> execAll m (Some c) (Suc i) cs))"
  by pat_completeness auto
termination
  by (relation "measure (\<lambda>(m, prev, i, s). length s)") auto

definition captures :: "(nat \<times> jsstring \<times> jsstring) list \<Rightarrow> jsstring list" where
  "captures ms = map (\<lambda>m. snd (snd m)) ms"

section \<open>Key extractor (extractor.ts)\<close>

definition calculateSourceLine :: "int \<Rightarrow> int \<Rightarrow> int" where
  "calculateSourceLine sectionLine sectionStartLine = sectionStartLine + sectionLine"

definition staticKey :: "jsstring \<Rightarrow> int \<Rightarrow> key_context \<Rightarrow> jsstring \<Rightarrow> TranslationKey" where
  "staticKey file lineNumber ctx k =
     \<lparr>tk_key = k, tk_file = file, tk_line = lineNumber, tk_context = ctx,
      tk_isDynamic = False, tk_rawPattern = None\<rparr>"

text \<open>The body of the loop over the template literal matches.\<close>

definition literalKey :: "jsstring \<Rightarrow> int \<Rightarrow> key_context \<Rightarrow> jsstring \<Rightarrow> TranslationKey" where
  "literalKey file lineNumber ctx rawPattern =
     (if includes_js rawPattern (js ''${'') then
        \<lparr>tk_key = [], tk_file = file, tk_line = lineNumber, tk_context = ctx,
         tk_isDynamic = True, tk_rawPattern = Some ([backtick] @ rawPattern @ [backtick])\<rparr>
      else staticKey file lineNumber ctx rawPattern)"

text \<open>\<open>for (let i = 0; i < lines.length; i++)\<close>: the body sees the index and the line.\<close>

fun forLines :: "(nat \<Rightarrow> jsstring \<Rightarrow> 'a list) \<Rightarrow> nat \<Rightarrow> jsstring list \<Rightarrow> 'a list" where
  "forLines body i [] = []"
| "forLines body i (l # ls) = body i l @ forLines body (Suc i) ls"

definition templateLineKeys :: "jsstring \<Rightarrow> int \<Rightarrow> jsstring \<Rightarrow> TranslationKey list" where
  "templateLineKeys file lineNumber line =
     map (staticKey file lineNumber Template) (captures (execAll interpolationPattern None 0 line))
     @ map (staticKey file lineNumber Template) (captures (execAll boundAttrPattern None 0 line))
     @ map (literalKey file lineNumber Template) (captures (execAll templateLiteralPattern None 0 line))"

definition extractFromTemplate :: "jsstring \<Rightarrow> jsstring \<Rightarrow> int \<Rightarrow> TranslationKey list" where
  "extractFromTemplate tmpl file startLine =
     forLines (\<lambda>i line. templateLineKeys file (calculateSourceLine (int i + 1) startLine) line)
       0 (splitLines tmpl)"

definition usesI18n :: "jsstring \<Rightarrow> bool" where
  "usesI18n scr \<longleftrightarrow> regexTest useI18nPattern None scr \<or> regexTest destructuredTPattern None scr"

definition skippedLine :: "jsstring \<Rightarrow> bool" where
  "skippedLine line \<longleftrightarrow>
     startsWith (trim line) (js ''import '') \<or> startsWith (trim line) (js ''type '')"

definition scriptLineKeys :: "jsstring \<Rightarrow> int \<Rightarrow> jsstring \<Rightarrow> TranslationKey list" where
  "scriptLineKeys file lineNumber line =
     (if skippedLine line then []
      else map (staticKey file lineNumber Script) (captures (execAll simplePattern None 0 line))
           @ map (literalKey file lineNumber Script) (captures (execAll scriptLiteralPattern None 0 line)))"

definition extractFromScript :: "jsstring \<Rightarrow> jsstring \<Rightarrow> int \<Rightarrow> TranslationKey list" where
  "extractFromScript scr file startLine =
     (if \<not> usesI18n scr then []
      else forLines (\<lambda>i line. scriptLineKeys file (calculateSourceLine (int i + 1) startLine) line)
             0 (splitLines scr))"

text \<open>
  \<open>if (parsed.template)\<close> and its siblings: a section that is \<open>null\<close> or the empty string
  is skipped.
\<close>

definition present :: "jsstring option \<Rightarrow> bool" where
  "present section \<longleftrightarrow> (case section of None \<Rightarrow> False | Some s \<Rightarrow> s \<noteq> [])"

definition extractTranslationKeys :: "ParsedVueSFC \<Rightarrow> TranslationKey list" where
  "extractTranslationKeys parsed =
     (if present (sfc_template parsed)
      then extractFromTemplate (the (sfc_template parsed)) (sfc_filePath parsed) (sfc_templateStartLine parsed)
      else [])
     @ (if present (sfc_scriptSetup parsed)
        then extractFromScript (the (sfc_scriptSetup parsed)) (sfc_filePath parsed) (sfc_scriptSetupStartLine parsed)
        else [])
     @ (if present (sfc_script parsed)
        then extractFromScript (the (sfc_script parsed)) (sfc_filePath parsed) (sfc_scriptStartLine parsed)
        else [])"

section \<open>Hardcoded-text detector (hardcoded.ts)\<close>

definition isLower :: "jschar \<Rightarrow> bool" where
  "isLower c \<longleftrightarrow> 97 \<le> c \<and> c \<le> 122"

definition isUpper :: "jschar \<Rightarrow> bool" where
  "isUpper c \<longleftrightarrow> 65 \<le> c \<and> c \<le> 90"

definition isDigit :: "jschar \<Rightarrow> bool" where
  "isDigit c \<longleftrightarrow> 48 \<le> c \<and> c \<le> 57"

definition isLetter :: "jschar \<Rightarrow> bool" where
  "isLetter c \<longleftrightarrow> isLower c \<or> isUpper c"

definition isAlnum :: "jschar \<Rightarrow> bool" where
  "isAlnum c \<longleftrightarrow> isLower c \<or> isUpper c \<or> isDigit c"

definition isHexDigit :: "jschar \<Rightarrow> bool" where
  "isHexDigit c \<longleftrightarrow> isDigit c \<or> (97 \<le> c \<and> c \<le> 102) \<or> (65 \<le> c \<and> c \<le> 70)"

text \<open>\<open>(-[a-z]+)*$\<close>, the tail of the kebab-case pattern.\<close>

function kebabGroups :: "jsstring \<Rightarrow> bool" where
  "kebabGroups [] = True"
| "kebabGroups (c # cs) =
     (c = 45 \<and> takeWhile isLower cs \<noteq> [] \<and> kebabGroups (dropWhile isLower cs))"
  by pat_completeness auto
termination
  by (relation "measure length") (auto simp: less_Suc_eq_le length_dropWhile_le)

text \<open>\<open>/^[a-z]+(-[a-z]+)+$/\<close>\<close>

definition kebabCase :: "jsstring \<Rightarrow> bool" where
  "kebabCase text \<longleftrightarrow>
     takeWhile isLower text \<noteq> [] \<and> dropWhile isLower text \<noteq> [] \<and> kebabGroups (dropWhile isLower text)"

text \<open>
  \<open>/^[a-z]+_[a-z]+/i\<close>. Without the \<open>u\<close> flag a code unit above 127 is never folded onto
  an ASCII letter, so under \<open>i\<close> the class is the ASCII letters of both cases.
\<close>

definition snakeCase :: "jsstring \<Rightarrow> bool" where
  "snakeCase text \<longleftrightarrow>
     takeWhile isLetter text \<noteq> [] \<and>
     (case dropWhile isLetter text of
        c # d # rest \<Rightarrow> c = 95 \<and> isLetter d
      | _ \<Rightarrow> False)"

text \<open>\<open>/^\d+$/\<close> and \<open>/^#[0-9a-f]{3,8}$/i\<close>\<close>

definition digitsOnly :: "jsstring \<Rightarrow> bool" where
  "digitsOnly text \<longleftrightarrow> text \<noteq> [] \<and> list_all isDigit text"

definition colorCode :: "jsstring \<Rightarrow> bool" where
  "colorCode text \<longleftrightarrow>
     (case text of
        [] \<Rightarrow> False
      | c # cs \<Rightarrow> c = 35 \<and> 3 \<le> length cs \<and> length cs \<le> 8 \<and> list_all isHexDigit cs)"

text \<open>
  An exclusion pattern is a compiled regular expression, given by its \<open>test\<close>, or a
  string, which \<open>matchesExclusionPattern\<close> tries as a prefix.
\<close>

datatype exclusion = RegExp "jsstring \<Rightarrow> bool" | Str jsstring

definition DEFAULT_EXCLUDE_PATTERNS :: "exclusion list" where
  "DEFAULT_EXCLUDE_PATTERNS =
     [RegExp (\<lambda>text. startsWith text (js ''v-'')),
      RegExp (\<lambda>text. startsWith text (js ''@'')),
      RegExp (\<lambda>text. startsWith text (js '':'')),
      RegExp (\<lambda>text. startsWith text (js ''#'')),
      RegExp (\<lambda>text. startsWith text (js ''route('')),
      RegExp (\<lambda>text. startsWith text (js ''router.'')),
      RegExp (\<lambda>text. startsWith text (js ''http://'') \<or> startsWith text (js ''https://'')),
      RegExp (\<lambda>text. startsWith text (js ''mailto:'')),
      RegExp (\<lambda>text. startsWith text (js ''/'')),
      RegExp kebabCase,
      RegExp snakeCase,
      RegExp digitsOnly,
      RegExp colorCode,
      RegExp (\<lambda>text. startsWith text (js ''${''))]"

fun matchesExclusionPattern :: "jsstring \<Rightarrow> exclusion list \<Rightarrow> bool" where
  "matchesExclusionPattern text [] = False"
| "matchesExclusionPattern text (pattern # patterns) =
     (case pattern of
        Str p \<Rightarrow> if startsWith text p then True else matchesExclusionPattern text patterns
      | RegExp test \<Rightarrow> if test text then True else matchesExclusionPattern text patterns)"

text \<open>\<open>/^[A-Z][a-zA-Z0-9]*$/\<close>\<close>

definition isComponentName :: "jsstring \<Rightarrow> bool" where
  "isComponentName text \<longleftrightarrow>
     (case text of [] \<Rightarrow> False | c # cs \<Rightarrow> isUpper c \<and> list_all isAlnum cs)"

text \<open>
  \<open>/^[A-Z][A-Z0-9_]*$/\<close>, then \<open>/^[a-z][a-zA-Z0-9]*$/\<close> with fewer than 20 code units,
  then \<open>/^\.\w+$/\<close>.
\<close>

definition isTechnicalIdentifier :: "jsstring \<Rightarrow> bool" where
  "isTechnicalIdentifier text \<longleftrightarrow>
     (case text of
        [] \<Rightarrow> False
      | c # cs \<Rightarrow>
          (isUpper c \<and> list_all (\<lambda>d. isUpper d \<or> isDigit d \<or> d = 95) cs) \<or>
          (isLower c \<and> list_all isAlnum cs \<and> length text < 20) \<or>
          (c = 46 \<and> cs \<noteq> [] \<and> list_all isWordChar cs))"

definition calculateConfidence :: "jsstring \<Rightarrow> confidence" where
  "calculateConfidence text =
     (let trimmed = trim text in
      if (case trimmed of c # d # rest \<Rightarrow> isUpper c \<and> isLower d | _ \<Rightarrow> False)
         \<and> includes_js trimmed (js '' '') then High
      else if trimmed \<noteq> [] \<and> last trimmed \<in> set (js ''.!?:,'') \<and> length trimmed > 5 then High
      else if (case trimmed of c # d # rest \<Rightarrow> isUpper c \<and> list_all isLower (d # rest) | _ \<Rightarrow> False)
        then Medium
      else if includes_js trimmed (js '' '') \<and> length trimmed > 10 then Medium
      else Low)"

text \<open>\<open>/>([^<{]+)</g\<close>: group 1 and the text after the closing \<open><\<close>.\<close>

definition textPattern :: "jschar option \<Rightarrow> jsstring \<Rightarrow> (jsstring \<times> jsstring) option" where
  "textPattern prev s =
     (case s of
        [] \<Rightarrow> None
      | g # cs \<Rightarrow>
          if g = 62 then
            (let body = takeWhile (\<lambda>c. c \<noteq> 60 \<and> c \<noteq> 123) cs;
                 rest = dropWhile (\<lambda>c. c \<noteq> 60 \<and> c \<noteq> 123) cs
             in if body \<noteq> [] \<and> startsWith rest [60] then Some (body, tl rest) else None)
          else None)"

text \<open>\<open>s.substring(a, b)\<close> for \<open>a \<le> b\<close>, the only way the program calls it.\<close>

definition substring :: "jsstring \<Rightarrow> nat \<Rightarrow> nat \<Rightarrow> jsstring" where
  "substring s a b = take (b - a) (drop a s)"

record TextNode =
  tn_text :: jsstring
  tn_line :: int
  tn_context :: jsstring

text \<open>
  \<open>extractTextNodes\<close>: the body of the \<open>while\<close> loop for one match, then the loops over
  the matches of a line and over the lines. \<open>Math.max(0, match.index - 20)\<close> is the
  subtraction of natural numbers.
\<close>

definition textNodeOf :: "nat \<Rightarrow> jsstring \<Rightarrow> (nat \<times> jsstring \<times> jsstring) \<Rightarrow> TextNode list" where
  "textNodeOf i line m =
     (let text = trim (snd (snd m)) in
      if text = [] \<or> list_all isWhiteSpace text then []
      else if includes_js text (js ''{{'') \<or> includes_js text (js ''}}'') then []
      else [\<lparr>tn_text = text, tn_line = int i + 1,
             tn_context = substring line (fst m - 20)
                            (min (length line) (fst m + length (fst (snd m)) + 20))\<rparr>])"

definition extractTextNodes :: "jsstring \<Rightarrow> TextNode list" where
  "extractTextNodes tmpl =
     forLines (\<lambda>i line. concat (map (textNodeOf i line) (execAll textPattern None 0 line)))
       0 (splitLines tmpl)"

text \<open>
  \<open>rules.excludePatterns.map(p => new RegExp(p))\<close>: the regular expression engine is the
  parameter \<open>compileRegExp\<close>, which gives the \<open>test\<close> of the compiled expression, or \<open>None\<close>
  when \<open>new RegExp\<close> throws a \<open>SyntaxError\<close>.
\<close>

fun compileAll :: "(jsstring \<Rightarrow> (jsstring \<Rightarrow> bool) option) \<Rightarrow> jsstring list \<Rightarrow> exclusion list option" where
  "compileAll compileRegExp [] = Some []"
| "compileAll compileRegExp (p # ps) =
     (case compileRegExp p of
        None \<Rightarrow> None
      | Some test \<Rightarrow>
          (case compileAll compileRegExp ps of
             None \<Rightarrow> None
           | Some rest \<Rightarrow> Some (RegExp test # rest)))"

text \<open>
  The loop of \<open>detectHardcodedStrings\<close> over the text nodes; \<open>toUpperCase\<close> is the
  library's \<open>String.prototype.toUpperCase\<close>, a parameter.
\<close>

fun detectLoop ::
  "(jsstring \<Rightarrow> jsstring) \<Rightarrow> (jsstring \<Rightarrow> jsstring \<Rightarrow> jsstring) \<Rightarrow> ParsedVueSFC \<Rightarrow> HardcodedTextRules
   \<Rightarrow> jsstring \<Rightarrow> exclusion list \<Rightarrow> TextNode list \<Rightarrow> HardcodedString list" where
  "detectLoop toUpperCase relative parsed rules projectRoot patterns [] = []"
| "detectLoop toUpperCase relative parsed rules projectRoot patterns (node # nodes) =
     (if int (length (tn_text node)) < minLength rules then []
      else if excludeAllCaps rules \<and> tn_text node = toUpperCase (tn_text node)
              \<and> length (tn_text node) > 2 then []
      else if matchesExclusionPattern (tn_text node) patterns then []
      else if isComponentName (tn_text node) then []
      else if isTechnicalIdentifier (tn_text node) then []
      else [\<lparr>hs_text = tn_text node,
             hs_file = getRelativePath relative (sfc_filePath parsed) projectRoot,
             hs_line = calculateSourceLine (tn_line node) (sfc_templateStartLine parsed),
             hs_confidence = calculateConfidence (tn_text node),
             hs_context = tn_context node\<rparr>])
     @ detectLoop toUpperCase relative parsed rules projectRoot patterns nodes"

definition detectHardcodedStrings ::
  "(jsstring \<Rightarrow> (jsstring \<Rightarrow> bool) option) \<Rightarrow> (jsstring \<Rightarrow> jsstring) \<Rightarrow> (jsstring \<Rightarrow> jsstring \<Rightarrow> jsstring)
   \<Rightarrow> ParsedVueSFC \<Rightarrow> HardcodedTextRules \<Rightarrow> jsstring \<Rightarrow> jserror + HardcodedString list" where
  "detectHardcodedStrings compileRegExp toUpperCase relative parsed rules projectRoot =
     (if \<not> present (sfc_template parsed) then Inr []
      else (case compileAll compileRegExp (excludePatterns rules) of
              None \<Rightarrow> Inl SyntaxError
            | Some userPatterns \<Rightarrow>
                Inr (detectLoop toUpperCase relative parsed rules projectRoot
                       (DEFAULT_EXCLUDE_PATTERNS @ userPatterns)
                       (extractTextNodes (the (sfc_template parsed))))))"

section \<open>Audit orchestrator (audit.ts)\<close>

definition showConfidence :: "confidence \<Rightarrow> jsstring" where
  "showConfidence c = (case c of High \<Rightarrow> js ''high'' | Medium \<Rightarrow> js ''medium'' | Low \<Rightarrow> js ''low'')"

definition hardcodedIssue :: "HardcodedString \<Rightarrow> AuditIssue" where
  "hardcodedIssue h =
     \<lparr>ai_type = hardcoded_text, ai_severity = warning,
      ai_file = hs_file h, ai_line = hs_line h, ai_key = None, ai_text = Some (hs_text h),
      ai_message = js ''Potential hardcoded text: '' @ [34] @ hs_text h @ [34]
                   @ js '' (confidence: '' @ showConfidence (hs_confidence h) @ js '')''\<rparr>"

text \<open>
  The inner \<open>try\<close> of \<open>runAudit\<close>: when \<open>detectHardcodedStrings\<close> throws, the file has no
  hardcoded-text issue.
\<close>

definition hardcodedIssues ::
  "(jsstring \<Rightarrow> (jsstring \<Rightarrow> bool) option) \<Rightarrow> (jsstring \<Rightarrow> jsstring) \<Rightarrow> (jsstring \<Rightarrow> jsstring \<Rightarrow> jsstring)
   \<Rightarrow> ParsedVueSFC \<Rightarrow> HardcodedTextRules \<Rightarrow> jsstring \<Rightarrow> AuditIssue list" where
  "hardcodedIssues compileRegExp toUpperCase relative parsed rules projectRoot =
     (case detectHardcodedStrings compileRegExp toUpperCase relative parsed rules projectRoot of
        Inl e \<Rightarrow> []
      | Inr hardcodedStrings \<Rightarrow> map hardcodedIssue hardcodedStrings)"

text \<open>
  The loop of \<open>runAudit\<close> over the scanned files. \<open>parseVueSFC\<close> reads the file and calls
  the Vue compiler, so each file is given by what \<open>parseVueSFC\<close> returned or threw. The
  loop state is \<open>allKeys\<close> and \<open>allIssues\<close>; a file whose parsing threw adds to neither.
\<close>

fun auditFiles ::
  "(jsstring \<Rightarrow> (jsstring \<Rightarrow> bool) option) \<Rightarrow> (jsstring \<Rightarrow> jsstring) \<Rightarrow> (jsstring \<Rightarrow> jsstring \<Rightarrow> jsstring)
   \<Rightarrow> HardcodedTextRules \<Rightarrow> jsstring \<Rightarrow> (jsstring \<rightharpoonup> LocaleEntry)
   \<Rightarrow> (jserror + ParsedVueSFC) list \<Rightarrow> TranslationKey list \<times> AuditIssue list" where
  "auditFiles compileRegExp toUpperCase relative rules projectRoot localeLookup [] = ([], [])"
| "auditFiles compileRegExp toUpperCase relative rules projectRoot localeLookup (f # files) =
     (let later = auditFiles compileRegExp toUpperCase relative rules projectRoot localeLookup files in
      case f of
        Inl e \<Rightarrow> later
      | Inr parsed \<Rightarrow>
          (extractTranslationKeys parsed @ fst later,
           (validateKeys relative (extractTranslationKeys parsed) localeLookup projectRoot
            @ hardcodedIssues compileRegExp toUpperCase relative parsed rules projectRoot)
           @ snd later))"

text \<open>
  The numbers of the source are IEEE 754 binary64 values. Every finite one is a rational
  number, and an arithmetic operation returns the exact result rounded to the nearest
  value with a significand of 53 bits, a tie going to the even significand. \<open>toDouble\<close>
  is that rounding: \<open>ilog2 x\<close> is the exponent of the leading bit of a positive \<open>x\<close>, and
  the significand is \<open>x\<close> scaled by \<open>2 ^ (52 - ilog2 x)\<close> and rounded to an integer. The
  exponent range is not modelled: the numbers of the coverage are zero or lie between
  \<open>2 ^ - 32\<close> and \<open>2 ^ 42\<close> in absolute value (the counts are array lengths, below
  \<open>2 ^ 32\<close>), far from overflow and from the subnormal numbers.
\<close>

function bitLength :: "int \<Rightarrow> nat" where
  "bitLength n = (if n \<le> 0 then 0 else Suc (bitLength (n div 2)))"
  by pat_completeness auto
termination
  by (relation "measure nat") auto

definition pow2 :: "int \<Rightarrow> rat" where
  "pow2 e = (if 0 \<le> e then 2 ^ nat e else 1 / 2 ^ nat (- e))"

definition ilog2 :: "rat \<Rightarrow> int" where
  "ilog2 x = (if 1 \<le> x then int (bitLength \<lfloor>x\<rfloor>) - 1 else - int (bitLength (\<lceil>1 / x\<rceil> - 1)))"

definition roundTiesToEven :: "rat \<Rightarrow> int" where
  "roundTiesToEven y =
     (let f = \<lfloor>y\<rfloor>; r = y - of_int f
      in if r < 1 / 2 then f else if 1 / 2 < r then f + 1 else if even f then f else f + 1)"

definition toDouble :: "rat \<Rightarrow> rat" where
  "toDouble x =
     (if x = 0 then 0
      else (let e = ilog2 \<bar>x\<bar> - 52
            in sgn x * of_int (roundTiesToEven (\<bar>x\<bar> / pow2 e)) * pow2 e))"

text \<open>The operators \<open>-\<close>, \<open>*\<close> and \<open>/\<close> of the source on such numbers.\<close>

definition jsSub :: "rat \<Rightarrow> rat \<Rightarrow> rat" where
  "jsSub a b = toDouble (a - b)"

definition jsMul :: "rat \<Rightarrow> rat \<Rightarrow> rat" where
  "jsMul a b = toDouble (a * b)"

definition jsDiv :: "rat \<Rightarrow> rat \<Rightarrow> rat" where
  "jsDiv a b = toDouble (a / b)"

text \<open>
  \<open>Math.round(x)\<close> is the integer nearest to \<open>x\<close>, a half going up; it is exact.
  \<open>coveragePercentage\<close> is the conditional expression of \<open>runAudit\<close>:
  \<open>Math.round(((totalUniqueKeys - missingKeys) / totalUniqueKeys) * 1000) / 10\<close>.
\<close>

definition mathRound :: "rat \<Rightarrow> int" where
  "mathRound x = \<lfloor>x + 1 / 2\<rfloor>"

definition coveragePercentage :: "nat \<Rightarrow> nat \<Rightarrow> rat" where
  "coveragePercentage totalUniqueKeys missingKeys =
     (if totalUniqueKeys > 0
      then jsDiv
             (of_int (mathRound
                (jsMul (jsDiv (jsSub (of_nat totalUniqueKeys) (of_nat missingKeys))
                          (of_nat totalUniqueKeys))
                   1000)))
             10
      else 100)"

text \<open>
  Step 4 of \<open>runAudit\<close>: the coverage of the report, from the unique keys of \<open>allKeys\<close>
  and the \<open>missingTranslations\<close> counter of \<open>countIssuesByType(allIssues)\<close>.
\<close>

definition reportCoverage ::
  "(jsstring \<Rightarrow> (jsstring \<Rightarrow> bool) option) \<Rightarrow> (jsstring \<Rightarrow> jsstring) \<Rightarrow> (jsstring \<Rightarrow> jsstring \<Rightarrow> jsstring)
   \<Rightarrow> HardcodedTextRules \<Rightarrow> jsstring \<Rightarrow> LocaleEntry list \<Rightarrow> (jserror + ParsedVueSFC) list \<Rightarrow> rat" where
  "reportCoverage compileRegExp toUpperCase relative rules projectRoot localeEntries files =
     (let audited = auditFiles compileRegExp toUpperCase relative rules projectRoot
                      (createLocaleLookup localeEntries) files
      in coveragePercentage (length (getUniqueKeys (fst audited)))
           (missingTranslations (countIssuesByType (snd audited))))"

section \<open>The specification's reading of flattening and of coverage\<close>

text \<open>
  The string leaves of a locale object, each with the path of keys that leads to it,
  and the key the specification gives a leaf: the namespace and the path joined by dots.
\<close>

fun stringLeaves :: "jsobject \<Rightarrow> (jsstring list \<times> jsstring) list"
  and valueLeaves :: "jsvalue \<Rightarrow> (jsstring list \<times> jsstring) list" where
  "stringLeaves [] = []"
| "stringLeaves (kv # rest) =
     map (\<lambda>leaf. (fst kv # fst leaf, snd leaf)) (valueLeaves (snd kv)) @ stringLeaves rest"
| "valueLeaves (JString v) = [([], v)]"
| "valueLeaves (JObject obj) = stringLeaves obj"
| "valueLeaves (JNumber n) = []"
| "valueLeaves (JBoolean b) = []"
| "valueLeaves JNull = []"
| "valueLeaves (JArray xs) = []"

definition dottedKey :: "jsstring \<Rightarrow> jsstring list \<Rightarrow> jsstring" where
  "dottedKey namespace path = foldl (\<lambda>joined segment. joined @ js ''.'' @ segment) namespace path"

definition leafEntry :: "jsstring \<Rightarrow> jsstring \<Rightarrow> (jsstring list \<times> jsstring) \<Rightarrow> LocaleEntry" where
  "leafEntry namespace file leaf =
     \<lparr>le_key = dottedKey namespace (fst leaf), le_value = snd leaf, le_file = file,
      le_isEmpty = (trim (snd leaf) = [])\<rparr>"

text \<open>
  Two objects that differ only in the order of sibling keys, at any depth.
\<close>

inductive siblingReorder :: "jsobject \<Rightarrow> jsobject \<Rightarrow> bool" where
  reorder_here: "mset obj = mset obj' \<Longrightarrow> siblingReorder obj obj'"
| reorder_inside:
    "siblingReorder inner inner' \<Longrightarrow>
     siblingReorder (before @ (k, JObject inner) # after) (before @ (k, JObject inner') # after)"
| reorder_trans: "siblingReorder a b \<Longrightarrow> siblingReorder b c \<Longrightarrow> siblingReorder a c"

text \<open>
  The coverage the specification states: \<open>U\<close> unique static keys, \<open>M\<close> of them missing
  from the catalog.
\<close>

definition missingUniqueKeys :: "TranslationKey list \<Rightarrow> (jsstring \<rightharpoonup> LocaleEntry) \<Rightarrow> jsstring list" where
  "missingUniqueKeys keys localeLookup = filter (\<lambda>k. localeLookup k = None) (getUniqueKeys keys)"

text \<open>
  The invariant of a call-site record: what a dynamic record and a static record hold.
\<close>

definition keyInvariant :: "TranslationKey \<Rightarrow> bool" where
  "keyInvariant k =
     (if tk_isDynamic k
      then tk_key k = [] \<and>
           (case tk_rawPattern k of
              None \<Rightarrow> False
            | Some raw \<Rightarrow> raw \<noteq> [] \<and> hd raw = backtick \<and> last raw = backtick
                          \<and> includes_js raw (js ''${''))
      else tk_key k \<noteq> [] \<and> tk_rawPattern k = None)"

declare execAll.simps [simp del]
declare dashedWords.simps [simp del]
declare bitLength.simps [simp del]

section \<open>Evaluation rules\<close>

lemmas js_eval =
  js_def startsWith_def expect_def expectOneOf_def skipSpaces_def optionalDollar_def
  isWhiteSpace_def isWordChar_def isQuote_def backtick_def trim_def

lemmas pattern_eval =
  plainCall_def dollarCall_def quotedKey_def backtickLiteral_def wordRun_def dashedWords.simps
  interpolationPattern_def boundAttrPattern_def templateLiteralPattern_def
  wordBoundaryBefore_def simplePattern_def scriptLiteralPattern_def
  useI18nPattern_def destructuredTPattern_def textPattern_def execAll.simps captures_def

lemmas extractor_eval =
  calculateSourceLine_def staticKey_def literalKey_def templateLineKeys_def
  extractFromTemplate_def usesI18n_def skippedLine_def scriptLineKeys_def
  extractFromScript_def present_def extractTranslationKeys_def

lemmas double_eval =
  toDouble_def ilog2_def pow2_def roundTiesToEven_def bitLength.simps jsSub_def jsMul_def jsDiv_def
  Let_def

lemmas hardcoded_eval =
  isLower_def isUpper_def isDigit_def isLetter_def isAlnum_def isHexDigit_def
  kebabCase_def snakeCase_def digitsOnly_def colorCode_def DEFAULT_EXCLUDE_PATTERNS_def
  isComponentName_def isTechnicalIdentifier_def calculateConfidence_def substring_def
  textNodeOf_def extractTextNodes_def detectHardcodedStrings_def hardcodedIssues_def
  getRelativePath_def

section \<open>The validator, one call site at a time\<close>

lemma validateKeys_append:
  "validateKeys relative (xs @ ys) localeLookup projectRoot =
   validateKeys relative xs localeLookup projectRoot @ validateKeys relative ys localeLookup projectRoot"
  by (induction xs) simp_all

text \<open>
  C2. A static call site whose key the lookup table does not hold contributes exactly
  one issue to the result of \<open>validateKeys\<close>, wherever it stands in the list of call
  sites: a \<open>missing_translation\<close> issue of severity \<open>error\<close> that carries the key and the
  line of the call site.
\<close>

theorem C2_missing_translation:
  assumes "\<not> tk_isDynamic k" and "localeLookup (tk_key k) = None"
  shows "validateKeys relative (before @ k # after) localeLookup projectRoot =
           validateKeys relative before localeLookup projectRoot
           @ [missingTranslationIssue relative projectRoot k]
           @ validateKeys relative after localeLookup projectRoot
         \<and> ai_type (missingTranslationIssue relative projectRoot k) = missing_translation
         \<and> ai_severity (missingTranslationIssue relative projectRoot k) = error
         \<and> ai_key (missingTranslationIssue relative projectRoot k) = Some (tk_key k)
         \<and> ai_line (missingTranslationIssue relative projectRoot k) = tk_line k"
  using assms by (simp add: validateKeys_append missingTranslationIssue_def)

theorem C2_missing_translation_witness:
  "\<not> tk_isDynamic (staticKey (js ''Page.vue'') 7 Template (js ''dashboard.welcome''))
   \<and> Map.empty (tk_key (staticKey (js ''Page.vue'') 7 Template (js ''dashboard.welcome''))) = (None :: LocaleEntry option)
   \<and> validateKeys (\<lambda>root path. path) ([] @ staticKey (js ''Page.vue'') 7 Template (js ''dashboard.welcome'') # []) Map.empty []
       = [missingTranslationIssue (\<lambda>root path. path) [] (staticKey (js ''Page.vue'') 7 Template (js ''dashboard.welcome''))]
   \<and> ai_key (missingTranslationIssue (\<lambda>root path. path) [] (staticKey (js ''Page.vue'') 7 Template (js ''dashboard.welcome'')))
       = Some (js ''dashboard.welcome'')
   \<and> ai_line (missingTranslationIssue (\<lambda>root path. path) [] (staticKey (js ''Page.vue'') 7 Template (js ''dashboard.welcome''))) = 7"
  using C2_missing_translation [of "staticKey (js ''Page.vue'') 7 Template (js ''dashboard.welcome'')" Map.empty "\<lambda>root path. path" "[]" "[]" "[]"]
  by (simp add: staticKey_def)

section \<open>The lookup table\<close>

lemma foldl_set_other:
  "\<forall>e \<in> set zs. le_key e \<noteq> k \<Longrightarrow>
   foldl (\<lambda>lookup entry. lookup(le_key entry \<mapsto> entry)) m zs k = m k"
  by (induction zs arbitrary: m) auto

lemma createLocaleLookup_last:
  "\<forall>e \<in> set zs. le_key e \<noteq> le_key e2 \<Longrightarrow>
   createLocaleLookup (xs @ e2 # zs) (le_key e2) = Some e2"
  by (simp add: createLocaleLookup_def foldl_set_other)

lemma loadLocaleEntries_append:
  "loadLocaleEntries (fs @ gs) = loadLocaleEntries fs @ loadLocaleEntries gs"
  by (induction fs) simp_all

text \<open>
  C6. The entries of a file processed earlier stand before those of a file processed
  later (\<open>loadLocaleEntries_append\<close>). When the entry list holds an entry \<open>e1\<close> and, later,
  an entry \<open>e2\<close> with the same key, and no entry after \<open>e2\<close> has that key, the lookup table
  maps the key to \<open>e2\<close>, unchanged: nothing is merged and no error is raised
  (\<open>createLocaleLookup\<close> is total).
\<close>

theorem C6_lookup_right_biased:
  assumes "le_key e1 = le_key e2"
    and "\<forall>e \<in> set later. le_key e \<noteq> le_key e2"
  shows "createLocaleLookup (earlier @ [e1] @ between @ [e2] @ later) (le_key e1) = Some e2"
proof -
  have "createLocaleLookup ((earlier @ [e1] @ between) @ e2 # later) (le_key e2) = Some e2"
    using assms(2) by (rule createLocaleLookup_last)
  then show ?thesis using assms(1) by simp
qed

theorem C6_lookup_right_biased_witness:
  "le_key \<lparr>le_key = js ''app.title'', le_value = js ''One'', le_file = js ''en/app.ts'', le_isEmpty = False\<rparr>
     = le_key \<lparr>le_key = js ''app.title'', le_value = js ''Two'', le_file = js ''en/zz.ts'', le_isEmpty = False\<rparr>
   \<and> le_key \<lparr>le_key = js ''zz.other'', le_value = js ''x'', le_file = js ''en/zz.ts'', le_isEmpty = False\<rparr>
       \<noteq> js ''app.title''
   \<and> createLocaleLookup
        [\<lparr>le_key = js ''app.title'', le_value = js ''One'', le_file = js ''en/app.ts'', le_isEmpty = False\<rparr>,
         \<lparr>le_key = js ''app.title'', le_value = js ''Two'', le_file = js ''en/zz.ts'', le_isEmpty = False\<rparr>,
         \<lparr>le_key = js ''zz.other'', le_value = js ''x'', le_file = js ''en/zz.ts'', le_isEmpty = False\<rparr>]
        (js ''app.title'')
      = Some \<lparr>le_key = js ''app.title'', le_value = js ''Two'', le_file = js ''en/zz.ts'', le_isEmpty = False\<rparr>"
  using C6_lookup_right_biased
    [of "\<lparr>le_key = js ''app.title'', le_value = js ''One'', le_file = js ''en/app.ts'', le_isEmpty = False\<rparr>"
        "\<lparr>le_key = js ''app.title'', le_value = js ''Two'', le_file = js ''en/zz.ts'', le_isEmpty = False\<rparr>"
        "[\<lparr>le_key = js ''zz.other'', le_value = js ''x'', le_file = js ''en/zz.ts'', le_isEmpty = False\<rparr>]"
        "[]" "[]"]
  by (simp add: js_def)

section \<open>Unique keys\<close>

lemma collectUnique_set:
  "set (collectUnique acc keys) =
   set acc \<union> {tk_key k |k. k \<in> set keys \<and> \<not> tk_isDynamic k \<and> tk_key k \<noteq> []}"
  by (induction keys arbitrary: acc) (auto simp: setAdd_def)

lemma collectUnique_distinct:
  "distinct acc \<Longrightarrow> distinct (collectUnique acc keys)"
  by (induction keys arbitrary: acc) (auto simp: setAdd_def)

text \<open>
  C10. The members of \<open>getUniqueKeys keys\<close> are exactly the keys of the call sites that
  are not dynamic and have a non-empty key; the list has no duplicates and is sorted in
  the lexicographic order of code units. So it is the sorted list of that set.
\<close>

theorem C10_getUniqueKeys:
  "set (getUniqueKeys keys) = {tk_key k |k. k \<in> set keys \<and> \<not> tk_isDynamic k \<and> tk_key k \<noteq> []}
   \<and> distinct (getUniqueKeys keys)
   \<and> sorted (getUniqueKeys keys)
   \<and> getUniqueKeys keys =
       sorted_list_of_set {tk_key k |k. k \<in> set keys \<and> \<not> tk_isDynamic k \<and> tk_key k \<noteq> []}"
proof -
  let ?S = "{tk_key k |k. k \<in> set keys \<and> \<not> tk_isDynamic k \<and> tk_key k \<noteq> []}"
  have s: "set (getUniqueKeys keys) = ?S"
    by (simp add: getUniqueKeys_def collectUnique_set)
  have d: "distinct (getUniqueKeys keys)"
    by (simp add: getUniqueKeys_def collectUnique_distinct)
  have o: "sorted (getUniqueKeys keys)"
    by (simp add: getUniqueKeys_def)
  have "sorted_list_of_set (set (getUniqueKeys keys)) = getUniqueKeys keys"
    using d o by (simp add: sorted_list_of_set.idem_if_sorted_distinct)
  with s d o show ?thesis by simp
qed

section \<open>Script sections without the translation function\<close>

lemma splitLines_nonempty: "splitLines s \<noteq> []"
  by (induction s) (simp_all add: Let_def)

text \<open>
  \<open>regexTest\<close> holds exactly when the pattern matches at some position of the text, the
  code unit before the position being the one the pattern sees for \<open>\b\<close>.
\<close>

lemma regexTest_iff:
  "regexTest m prev s \<longleftrightarrow>
   (\<exists>pre post. s = pre @ post \<and> m (if pre = [] then prev else Some (last pre)) post \<noteq> None)"
proof (induction s arbitrary: prev)
  case Nil
  then show ?case by simp
next
  case (Cons c cs)
  show ?case
  proof
    assume "regexTest m prev (c # cs)"
    then consider "m prev (c # cs) \<noteq> None" | "regexTest m (Some c) cs" by auto
    then show "\<exists>pre post. c # cs = pre @ post
        \<and> m (if pre = [] then prev else Some (last pre)) post \<noteq> None"
    proof cases
      case 1
      then have "c # cs = [] @ (c # cs)
          \<and> m (if ([]::jsstring) = [] then prev else Some (last [])) (c # cs) \<noteq> None"
        by simp
      then show ?thesis by blast
    next
      case 2
      with Cons.IH obtain pre post where cs: "cs = pre @ post"
        and m: "m (if pre = [] then Some c else Some (last pre)) post \<noteq> None"
        by blast
      have "c # cs = (c # pre) @ post
          \<and> m (if c # pre = [] then prev else Some (last (c # pre))) post \<noteq> None"
        using cs m by (cases pre) simp_all
      then show ?thesis by blast
    qed
  next
    assume "\<exists>pre post. c # cs = pre @ post
        \<and> m (if pre = [] then prev else Some (last pre)) post \<noteq> None"
    then obtain pre post where e: "c # cs = pre @ post"
      and m: "m (if pre = [] then prev else Some (last pre)) post \<noteq> None"
      by blast
    show "regexTest m prev (c # cs)"
    proof (cases pre)
      case Nil
      with e m have "m prev (c # cs) \<noteq> None" by simp
      then show ?thesis by simp
    next
      case (Cons d pre')
      with e have cs: "cs = pre' @ post" and d: "d = c" by simp_all
      from m Cons d have "m (if pre' = [] then Some c else Some (last pre')) post \<noteq> None"
        by (cases pre') simp_all
      with cs Cons.IH have "regexTest m (Some c) cs" by blast
      then show ?thesis by simp
    qed
  qed
qed

text \<open>
  C8. When neither \<open>/useI18n\s*\(/\<close> nor \<open>/const\s*\{\s*t\s*[,}]/\<close> matches anywhere in the
  text of a script section (\<open>regexTest_iff\<close>), \<open>extractFromScript\<close> returns no call site,
  whatever calls of \<open>t\<close> the text holds.
\<close>

theorem C8_script_without_i18n:
  assumes "\<not> regexTest useI18nPattern None scr"
    and "\<not> regexTest destructuredTPattern None scr"
  shows "extractFromScript scr file startLine = []"
  using assms by (simp add: extractFromScript_def usesI18n_def)

theorem C8_script_without_i18n_witness:
  "\<not> regexTest useI18nPattern None (js ''x = t('a.b') + t(`c.${d}`)'')
   \<and> \<not> regexTest destructuredTPattern None (js ''x = t('a.b') + t(`c.${d}`)'')
   \<and> extractFromScript (js ''x = t('a.b') + t(`c.${d}`)'') (js ''Page.vue'') 1 = []
   \<and> captures (execAll simplePattern None 0 (js ''x = t('a.b') + t(`c.${d}`)'')) = [js ''a.b'', js ''c.${d}'']"
  using C8_script_without_i18n [of "js ''x = t('a.b') + t(`c.${d}`)''" "js ''Page.vue''" 1]
  by (simp add: js_eval pattern_eval)

section \<open>Entries of the loader and their empty flag\<close>

lemma flatten_isEmpty:
  "\<forall>e \<in> set (flattenObject obj prefix f). le_isEmpty e = (trim (le_value e) = [])"
  "\<forall>e \<in> set (flattenValue v fullKey f). le_isEmpty e = (trim (le_value e) = [])"
  by (induction obj "prefix" f and v fullKey f rule: flattenObject_flattenValue.induct) auto

lemma loadLocaleEntries_isEmpty:
  "e \<in> set (loadLocaleEntries files) \<Longrightarrow> le_isEmpty e = (trim (le_value e) = [])"
  by (induction files) (auto simp: flatten_isEmpty split: sum.splits if_splits)

lemma foldl_set_member:
  "foldl (\<lambda>lookup entry. lookup(le_key entry \<mapsto> entry)) m es k = Some e \<Longrightarrow>
   e \<in> set es \<or> m k = Some e"
proof (induction es arbitrary: m)
  case Nil
  then show ?case by simp
next
  case (Cons a es)
  from Cons.prems have "e \<in> set es \<or> (m(le_key a \<mapsto> a)) k = Some e"
    by (intro Cons.IH) simp
  then show ?case by (auto split: if_splits)
qed

lemma createLocaleLookup_member:
  "createLocaleLookup es k = Some e \<Longrightarrow> e \<in> set es"
  using foldl_set_member [of Map.empty es k e] by (simp add: createLocaleLookup_def)

text \<open>
  C3. The catalog is what the loader builds: the lookup table of the entries that
  \<open>flattenObject\<close> produces for the locale files. A static call site whose key the table
  holds contributes, wherever it stands in the list of call sites, exactly one
  \<open>empty_value\<close> issue of severity \<open>warning\<close> when the value of the entry is empty after
  trimming, and no issue when it is not.
\<close>

theorem C3_present_key:
  assumes "localeLookup = createLocaleLookup (loadLocaleEntries files)"
    and "\<not> tk_isDynamic k"
    and "localeLookup (tk_key k) = Some entry"
  shows "validateKeys relative (before @ k # after) localeLookup projectRoot =
           validateKeys relative before localeLookup projectRoot
           @ (if trim (le_value entry) = [] then [emptyValueIssue relative projectRoot k] else [])
           @ validateKeys relative after localeLookup projectRoot
         \<and> ai_type (emptyValueIssue relative projectRoot k) = empty_value
         \<and> ai_severity (emptyValueIssue relative projectRoot k) = warning"
proof -
  have "entry \<in> set (loadLocaleEntries files)"
    using assms(1,3) createLocaleLookup_member by simp
  then have "le_isEmpty entry = (trim (le_value entry) = [])"
    by (rule loadLocaleEntries_isEmpty)
  then show ?thesis
    using assms(2,3) by (simp add: validateKeys_append emptyValueIssue_def)
qed

theorem C3_present_key_witness:
  "createLocaleLookup (loadLocaleEntries
       [(js ''common'', js ''en/common.ts'',
         Inr [(js ''save'', JString (js ''Save'')), (js ''cancel'', JString (js ''  ''))])])
     (tk_key (staticKey (js ''Page.vue'') 4 Template (js ''common.cancel'')))
    = Some \<lparr>le_key = js ''common.cancel'', le_value = js ''  '', le_file = js ''en/common.ts'', le_isEmpty = True\<rparr>
   \<and> validateKeys (\<lambda>root path. path) ([] @ staticKey (js ''Page.vue'') 4 Template (js ''common.cancel'') # [])
        (createLocaleLookup (loadLocaleEntries
          [(js ''common'', js ''en/common.ts'',
            Inr [(js ''save'', JString (js ''Save'')), (js ''cancel'', JString (js ''  ''))])])) []
      = [emptyValueIssue (\<lambda>root path. path) [] (staticKey (js ''Page.vue'') 4 Template (js ''common.cancel''))]
   \<and> createLocaleLookup (loadLocaleEntries
       [(js ''common'', js ''en/common.ts'',
         Inr [(js ''save'', JString (js ''Save'')), (js ''cancel'', JString (js ''  ''))])])
     (tk_key (staticKey (js ''Page.vue'') 9 Template (js ''common.save'')))
    = Some \<lparr>le_key = js ''common.save'', le_value = js ''Save'', le_file = js ''en/common.ts'', le_isEmpty = False\<rparr>
   \<and> validateKeys (\<lambda>root path. path) ([] @ staticKey (js ''Page.vue'') 9 Template (js ''common.save'') # [])
        (createLocaleLookup (loadLocaleEntries
          [(js ''common'', js ''en/common.ts'',
            Inr [(js ''save'', JString (js ''Save'')), (js ''cancel'', JString (js ''  ''))])])) []
      = []"
proof -
  let ?files = "[(js ''common'', js ''en/common.ts'',
         Inr [(js ''save'', JString (js ''Save'')), (js ''cancel'', JString (js ''  ''))])]"
  let ?lookup = "createLocaleLookup (loadLocaleEntries ?files)"
  let ?k1 = "staticKey (js ''Page.vue'') 4 Template (js ''common.cancel'')"
  let ?k2 = "staticKey (js ''Page.vue'') 9 Template (js ''common.save'')"
  let ?e1 = "\<lparr>le_key = js ''common.cancel'', le_value = js ''  '', le_file = js ''en/common.ts'', le_isEmpty = True\<rparr>"
  let ?e2 = "\<lparr>le_key = js ''common.save'', le_value = js ''Save'', le_file = js ''en/common.ts'', le_isEmpty = False\<rparr>"
  have d1: "\<not> tk_isDynamic ?k1" and d2: "\<not> tk_isDynamic ?k2"
    by (simp_all add: staticKey_def)
  have l1: "?lookup (tk_key ?k1) = Some ?e1"
    by (simp add: createLocaleLookup_def staticKey_def js_eval)
  have l2: "?lookup (tk_key ?k2) = Some ?e2"
    by (simp add: createLocaleLookup_def staticKey_def js_eval)
  have t1: "trim (le_value ?e1) = []" and t2: "trim (le_value ?e2) \<noteq> []"
    by (simp_all add: js_eval)
  show ?thesis
    using C3_present_key [OF refl d1 l1, of "\<lambda>root path. path" "[]" "[]" "[]"]
      C3_present_key [OF refl d2 l2, of "\<lambda>root path. path" "[]" "[]" "[]"]
      l1 l2 t1 t2
    by simp
qed

section \<open>Flattening a locale object\<close>

lemma dottedKey_Cons:
  "dottedKey namespace (k # path) = dottedKey (namespace @ js ''.'' @ k) path"
  by (simp add: dottedKey_def)

lemma flatten_leaves:
  "prefix \<noteq> [] \<Longrightarrow> flattenObject obj prefix f = map (leafEntry prefix f) (stringLeaves obj)"
  "fullKey \<noteq> [] \<Longrightarrow> flattenValue v fullKey f = map (leafEntry fullKey f) (valueLeaves v)"
proof (induction obj "prefix" f and v fullKey f rule: flattenObject_flattenValue.induct)
  case (2 kv rest "prefix" f)
  have "flattenValue (snd kv) (prefix @ js ''.'' @ fst kv) f
        = map (leafEntry (prefix @ js ''.'' @ fst kv) f) (valueLeaves (snd kv))"
    using "2.IH"(1) "2.prems" by simp
  moreover have "flattenObject rest prefix f = map (leafEntry prefix f) (stringLeaves rest)"
    using "2.IH"(2) "2.prems" by simp
  ultimately show ?case
    using "2.prems" by (simp add: leafEntry_def dottedKey_Cons comp_def)
qed (simp_all add: leafEntry_def dottedKey_def)

lemma flattenObject_concat:
  "flattenObject obj prefix f =
   concat (map (\<lambda>kv. flattenValue (snd kv) (if prefix \<noteq> [] then prefix @ js ''.'' @ fst kv else fst kv) f) obj)"
  by (induction obj) simp_all

lemma flattenObject_append:
  "flattenObject (xs @ ys) prefix f = flattenObject xs prefix f @ flattenObject ys prefix f"
  by (simp add: flattenObject_concat)

lemma mset_concat_map:
  "mset (concat (map g xs)) = (\<Sum>x\<in>#mset xs. mset (g x))"
  by (induction xs) simp_all

lemma flattenObject_mset_cong:
  "mset obj = mset obj' \<Longrightarrow> mset (flattenObject obj prefix f) = mset (flattenObject obj' prefix f)"
  by (simp add: flattenObject_concat mset_concat_map)

lemma siblingReorder_flatten:
  "siblingReorder obj obj' \<Longrightarrow> mset (flattenObject obj prefix f) = mset (flattenObject obj' prefix f)"
proof (induction arbitrary: "prefix" rule: siblingReorder.induct)
  case (reorder_here obj obj')
  then show ?case by (rule flattenObject_mset_cong)
next
  case (reorder_inside inner inner' before k after)
  then show ?case by (simp add: flattenObject_append)
next
  case (reorder_trans a b c)
  then show ?case by simp
qed

text \<open>
  C5. Under a namespace (the base name of a locale file, not empty) \<open>flattenObject\<close>
  returns one entry for each string leaf of the object and no other entry: the entry of a
  leaf has the namespace and the path of nested keys joined by dots as its key and the
  leaf as its value. Reordering sibling keys, at any depth, leaves the multiset of entries
  unchanged. A value that is neither a string nor an object (a number, a boolean, \<open>null\<close>,
  an array) yields no entry.
\<close>

theorem C5_flatten:
  assumes "namespace \<noteq> []"
  shows "flattenObject obj namespace f = map (leafEntry namespace f) (stringLeaves obj)
         \<and> (\<forall>obj'. siblingReorder obj obj' \<longrightarrow>
                mset (flattenObject obj' namespace f) = mset (flattenObject obj namespace f))
         \<and> (\<forall>k v. (\<forall>s. v \<noteq> JString s) \<and> (\<forall>inner. v \<noteq> JObject inner) \<longrightarrow>
                flattenObject [(k, v)] namespace f = [])"
proof (intro conjI allI impI)
  show "flattenObject obj namespace f = map (leafEntry namespace f) (stringLeaves obj)"
    using assms by (rule flatten_leaves(1))
next
  fix obj' assume "siblingReorder obj obj'"
  then show "mset (flattenObject obj' namespace f) = mset (flattenObject obj namespace f)"
    by (simp add: siblingReorder_flatten)
next
  fix k v assume "(\<forall>s. v \<noteq> JString s) \<and> (\<forall>inner. v \<noteq> JObject inner)"
  then show "flattenObject [(k, v)] namespace f = []"
    by (cases v) simp_all
qed

theorem C5_flatten_witness:
  "js ''ns'' \<noteq> []
   \<and> flattenObject [(js ''a'', JObject [(js ''b'', JString (js ''x'')), (js ''c'', JString (js ''y''))])]
        (js ''ns'') (js ''en/ns.ts'')
      = [\<lparr>le_key = js ''ns.a.b'', le_value = js ''x'', le_file = js ''en/ns.ts'', le_isEmpty = False\<rparr>,
         \<lparr>le_key = js ''ns.a.c'', le_value = js ''y'', le_file = js ''en/ns.ts'', le_isEmpty = False\<rparr>]
   \<and> siblingReorder
        [(js ''a'', JObject [(js ''b'', JString (js ''x'')), (js ''c'', JString (js ''y''))])]
        [(js ''a'', JObject [(js ''c'', JString (js ''y'')), (js ''b'', JString (js ''x''))])]
   \<and> mset (flattenObject [(js ''a'', JObject [(js ''c'', JString (js ''y'')), (js ''b'', JString (js ''x''))])]
        (js ''ns'') (js ''en/ns.ts''))
      = {#\<lparr>le_key = js ''ns.a.b'', le_value = js ''x'', le_file = js ''en/ns.ts'', le_isEmpty = False\<rparr>,
          \<lparr>le_key = js ''ns.a.c'', le_value = js ''y'', le_file = js ''en/ns.ts'', le_isEmpty = False\<rparr>#}
   \<and> flattenObject [(js ''n'', JNumber 3)] (js ''ns'') (js ''en/ns.ts'') = []
   \<and> flattenObject [(js ''l'', JArray [JString (js ''x'')])] (js ''ns'') (js ''en/ns.ts'') = []"
proof -
  let ?obj = "[(js ''a'', JObject [(js ''b'', JString (js ''x'')), (js ''c'', JString (js ''y''))])]"
  let ?obj' = "[(js ''a'', JObject [(js ''c'', JString (js ''y'')), (js ''b'', JString (js ''x''))])]"
  have ne: "js ''ns'' \<noteq> []"
    by (simp add: js_def)
  have "siblingReorder [(js ''b'', JString (js ''x'')), (js ''c'', JString (js ''y''))]
          [(js ''c'', JString (js ''y'')), (js ''b'', JString (js ''x''))]"
    by (rule reorder_here) simp
  from reorder_inside [OF this, of "[]" "js ''a''" "[]"]
  have r: "siblingReorder ?obj ?obj'"
    by simp
  have v: "flattenObject ?obj (js ''ns'') (js ''en/ns.ts'')
      = [\<lparr>le_key = js ''ns.a.b'', le_value = js ''x'', le_file = js ''en/ns.ts'', le_isEmpty = False\<rparr>,
         \<lparr>le_key = js ''ns.a.c'', le_value = js ''y'', le_file = js ''en/ns.ts'', le_isEmpty = False\<rparr>]"
    by (simp add: js_eval)
  show ?thesis
    using C5_flatten [OF ne, of ?obj "js ''en/ns.ts''"] ne r v
    by simp
qed

section \<open>What a successful attempt of a pattern consumed\<close>

lemma skipSpaces_split: "\<exists>ws. s = ws @ skipSpaces s"
proof
  show "s = takeWhile isWhiteSpace s @ skipSpaces s"
    by (simp add: skipSpaces_def)
qed

lemma expect_Some:
  assumes "expect p s = Some r"
  shows "s = p @ r"
proof -
  from assms have "take (length p) s = p" and "r = drop (length p) s"
    by (auto simp: expect_def startsWith_def split: if_splits)
  then have "p @ r = take (length p) s @ drop (length p) s"
    by simp
  then show ?thesis by simp
qed

lemma optionalDollar_split: "\<exists>d. s = d @ optionalDollar s"
proof (cases s)
  case Nil
  then show ?thesis by (simp add: optionalDollar_def)
next
  case (Cons c cs)
  show ?thesis
  proof (cases "c = 36")
    case True
    with Cons have "s = [c] @ optionalDollar s" by (simp add: optionalDollar_def)
    then show ?thesis ..
  next
    case False
    with Cons have "s = [] @ optionalDollar s" by (simp add: optionalDollar_def)
    then show ?thesis ..
  qed
qed

lemma plainCall_Some:
  assumes "plainCall s = Some r"
  shows "\<exists>callHead. s = callHead @ r"
proof -
  from assms obtain s1 where a: "expect (js ''t'') s = Some s1"
    by (cases "expect (js ''t'') s") (simp_all add: plainCall_def)
  with assms obtain s2 where b: "expect (js ''('') (skipSpaces s1) = Some s2"
    by (cases "expect (js ''('') (skipSpaces s1)") (simp_all add: plainCall_def)
  from assms a b have c: "r = skipSpaces s2"
    by (simp add: plainCall_def)
  obtain w1 where w1: "s1 = w1 @ skipSpaces s1" using skipSpaces_split by blast
  obtain w2 where w2: "s2 = w2 @ r" using skipSpaces_split c by blast
  have "s = js ''t'' @ s1" using a by (rule expect_Some)
  also have "s1 = w1 @ skipSpaces s1" by (rule w1)
  also have "skipSpaces s1 = js ''('' @ s2" using b by (rule expect_Some)
  also have "s2 = w2 @ r" by (rule w2)
  finally have "s = (js ''t'' @ w1 @ js ''('' @ w2) @ r" by simp
  then show ?thesis ..
qed

lemma dollarCall_Some:
  assumes "dollarCall s = Some r"
  shows "\<exists>callHead. s = callHead @ r"
proof -
  obtain d where d: "s = d @ optionalDollar s" using optionalDollar_split by blast
  from assms have "plainCall (optionalDollar s) = Some r" by (simp add: dollarCall_def)
  then obtain h where "optionalDollar s = h @ r" using plainCall_Some by blast
  with d have "s = (d @ h) @ r" by simp
  then show ?thesis ..
qed

lemma dropWhile_starts:
  assumes "dropWhile P cs = q # rest"
  shows "cs = takeWhile P cs @ q # rest"
proof -
  have "cs = takeWhile P cs @ dropWhile P cs" by simp
  with assms show ?thesis by simp
qed

lemma quotedKey_Some:
  assumes "quotedKey s = Some (body, rest)"
  shows "body \<noteq> [] \<and> (\<exists>q. s = q # body @ q # rest)"
proof (cases s)
  case Nil
  with assms show ?thesis by (simp add: quotedKey_def)
next
  case (Cons q cs)
  let ?d = "dropWhile (\<lambda>c. \<not> isQuote c) cs"
  from assms Cons have body: "body = takeWhile (\<lambda>c. \<not> isQuote c) cs" and ne: "body \<noteq> []"
    and st: "startsWith ?d [q]" and rest: "rest = tl ?d"
    by (simp_all add: quotedKey_def Let_def split: if_splits)
  from st rest have "?d = q # rest"
    by (cases ?d) (simp_all add: startsWith_def)
  then have "cs = body @ q # rest"
    unfolding body by (rule dropWhile_starts)
  with Cons ne show ?thesis by simp
qed

lemma backtickLiteral_Some:
  assumes "backtickLiteral s = Some (body, rest)"
  shows "body \<noteq> [] \<and> backtick \<notin> set body \<and> s = backtick # body @ backtick # rest"
proof (cases s)
  case Nil
  with assms show ?thesis by (simp add: backtickLiteral_def)
next
  case (Cons q cs)
  let ?d = "dropWhile (\<lambda>c. c \<noteq> backtick) cs"
  from assms Cons have q: "q = backtick"
    and body: "body = takeWhile (\<lambda>c. c \<noteq> backtick) cs" and ne: "body \<noteq> []"
    and nr: "?d \<noteq> []" and rest: "rest = tl ?d"
    by (simp_all add: backtickLiteral_def Let_def split: if_splits)
  from nr have "\<not> (hd ?d \<noteq> backtick)"
    by (rule hd_dropWhile)
  with nr rest have "?d = backtick # rest"
    by (cases ?d) simp_all
  then have "cs = body @ backtick # rest"
    unfolding body by (rule dropWhile_starts)
  moreover have "backtick \<notin> set body"
    unfolding body by (auto dest: set_takeWhileD)
  ultimately show ?thesis using Cons q ne by simp
qed

lemma interpolationPattern_capture:
  assumes "interpolationPattern prev s = Some (cap, rest)"
  shows "cap \<noteq> []"
proof -
  from assms obtain s2 where "quotedKey s2 = Some (cap, rest)"
    by (auto simp: interpolationPattern_def bind_eq_Some_conv)
  then show ?thesis by (simp add: quotedKey_Some)
qed

lemma boundAttrPattern_capture:
  assumes "boundAttrPattern prev s = Some (cap, rest)"
  shows "cap \<noteq> []"
proof -
  from assms obtain s5 where "quotedKey s5 = Some (cap, rest)"
    by (auto simp: boundAttrPattern_def bind_eq_Some_conv)
  then show ?thesis by (simp add: quotedKey_Some)
qed

lemma simplePattern_capture:
  assumes "simplePattern prev s = Some (cap, rest)"
  shows "cap \<noteq> []"
proof -
  from assms obtain s1 where "quotedKey s1 = Some (cap, rest)"
    by (auto simp: simplePattern_def bind_eq_Some_conv split: if_splits)
  then show ?thesis by (simp add: quotedKey_Some)
qed

lemma templateLiteralPattern_Some:
  assumes "templateLiteralPattern prev s = Some (cap, rest)"
  shows "cap \<noteq> [] \<and> backtick \<notin> set cap
         \<and> (\<exists>callHead. s = callHead @ backtick # cap @ backtick # rest)"
proof -
  from assms obtain s1 where a: "dollarCall s = Some s1"
    and c: "backtickLiteral s1 = Some (cap, rest)"
    by (auto simp: templateLiteralPattern_def bind_eq_Some_conv)
  obtain h where h: "s = h @ s1" using a dollarCall_Some by blast
  from backtickLiteral_Some [OF c] have ne: "cap \<noteq> []" and nb: "backtick \<notin> set cap"
    and s1: "s1 = backtick # cap @ backtick # rest"
    by simp_all
  from h s1 have "s = h @ backtick # cap @ backtick # rest" by simp
  then have "\<exists>callHead. s = callHead @ backtick # cap @ backtick # rest" ..
  with ne nb show ?thesis by simp
qed

lemma scriptLiteralPattern_Some:
  assumes "scriptLiteralPattern prev s = Some (cap, rest)"
  shows "cap \<noteq> [] \<and> backtick \<notin> set cap
         \<and> (\<exists>callHead. s = callHead @ backtick # cap @ backtick # rest)"
proof -
  from assms obtain s1 where a: "plainCall s = Some s1"
    and c: "backtickLiteral s1 = Some (cap, rest)"
    by (auto simp: scriptLiteralPattern_def bind_eq_Some_conv split: if_splits)
  obtain h where h: "s = h @ s1" using a plainCall_Some by blast
  from backtickLiteral_Some [OF c] have ne: "cap \<noteq> []" and nb: "backtick \<notin> set cap"
    and s1: "s1 = backtick # cap @ backtick # rest"
    by simp_all
  from h s1 have "s = h @ backtick # cap @ backtick # rest" by simp
  then have "\<exists>callHead. s = callHead @ backtick # cap @ backtick # rest" ..
  with ne nb show ?thesis by simp
qed

text \<open>Every match that the scan reports is a successful attempt of the pattern.\<close>

lemma execAll_capture:
  "(i, m0, cap) \<in> set (execAll m prev j s) \<Longrightarrow> \<exists>prev' s' rest. m prev' s' = Some (cap, rest)"
proof (induction m prev j s rule: execAll.induct)
  case (1 m prev j s)
  show ?case
  proof (cases "m prev s")
    case None
    show ?thesis
    proof (cases s)
      case Nil
      with None "1.prems" show ?thesis by (simp add: execAll.simps [of m prev j "[]"])
    next
      case (Cons c cs)
      with None "1.prems" have "(i, m0, cap) \<in> set (execAll m (Some c) (Suc j) cs)"
        by (simp add: execAll.simps [of m prev j "c # cs"])
      with "1.IH"(1) [OF None Cons] show ?thesis by simp
    qed
  next
    case (Some cr)
    obtain capture rest where cr: "cr = (capture, rest)" by (cases cr)
    show ?thesis
    proof (cases "(i, m0, cap) = (j, take (length s - length rest) s, capture)")
      case True
      with Some cr show ?thesis by auto
    next
      case False
      with Some cr "1.prems" have lt: "length rest < length s"
        and mem: "(i, m0, cap) \<in> set (execAll m (Some (last (take (length s - length rest) s)))
                    (j + (length s - length rest)) rest)"
        by (auto simp: execAll.simps [of m prev j s] Let_def split: if_splits)
      from "1.IH"(2) [OF Some cr [symmetric] refl lt mem] show ?thesis .
    qed
  qed
qed


lemma forLines_member:
  "x \<in> set (forLines body i ls) \<Longrightarrow> \<exists>j l. l \<in> set ls \<and> x \<in> set (body j l)"
proof (induction ls arbitrary: i)
  case Nil
  then show ?case by simp
next
  case (Cons a ls)
  from Cons.prems consider "x \<in> set (body i a)" | "x \<in> set (forLines body (Suc i) ls)"
    by auto
  then show ?case
  proof cases
    case 1
    then have "a \<in> set (a # ls) \<and> x \<in> set (body i a)" by simp
    then show ?thesis by blast
  next
    case 2
    with Cons.IH obtain j l where "l \<in> set ls" and "x \<in> set (body j l)" by blast
    then have "l \<in> set (a # ls) \<and> x \<in> set (body j l)" by simp
    then show ?thesis by blast
  qed
qed

lemma startsWith_iff: "startsWith s p \<longleftrightarrow> (\<exists>post. s = p @ post)"
proof
  assume "startsWith s p"
  then have "s = p @ drop (length p) s"
    unfolding startsWith_def by (metis append_take_drop_id)
  then show "\<exists>post. s = p @ post" ..
next
  assume "\<exists>post. s = p @ post"
  then show "startsWith s p" by (auto simp: startsWith_def)
qed

lemma includes_js_iff: "includes_js s p \<longleftrightarrow> (\<exists>pre post. s = pre @ p @ post)"
proof (induction s)
  case Nil
  then show ?case by simp
next
  case (Cons c cs)
  show ?case
  proof
    assume "includes_js (c # cs) p"
    then consider "startsWith (c # cs) p" | "includes_js cs p" by auto
    then show "\<exists>pre post. c # cs = pre @ p @ post"
    proof cases
      case 1
      then obtain post where "c # cs = [] @ p @ post" by (auto simp: startsWith_iff)
      then show ?thesis by blast
    next
      case 2
      with Cons.IH obtain pre post where "cs = pre @ p @ post" by blast
      then have "c # cs = (c # pre) @ p @ post" by simp
      then show ?thesis by blast
    qed
  next
    assume "\<exists>pre post. c # cs = pre @ p @ post"
    then obtain pre post where e: "c # cs = pre @ p @ post" by blast
    show "includes_js (c # cs) p"
    proof (cases pre)
      case Nil
      with e have "startsWith (c # cs) p" by (auto simp: startsWith_iff)
      then show ?thesis by simp
    next
      case (Cons d pre')
      with e have "cs = pre' @ p @ post" by simp
      with Cons.IH have "includes_js cs p" by blast
      then show ?thesis by simp
    qed
  qed
qed

lemma includes_js_context:
  "includes_js s p \<Longrightarrow> includes_js (a @ s @ b) p"
proof -
  assume "includes_js s p"
  then obtain pre post where "s = pre @ p @ post" by (auto simp: includes_js_iff)
  then have "a @ s @ b = (a @ pre) @ p @ (post @ b)" by simp
  then show ?thesis unfolding includes_js_iff by blast
qed

section \<open>Every pattern consumes at least one code unit\<close>

lemma skipSpaces_length: "length (skipSpaces s) \<le> length s"
  by (simp add: skipSpaces_def length_dropWhile_le)

lemma expect_length: "expect p s = Some r \<Longrightarrow> length r \<le> length s"
  by (drule expect_Some) simp

lemma expectOneOf_length: "expectOneOf cls s = Some r \<Longrightarrow> length r < length s"
  by (cases s) (simp_all add: expectOneOf_def split: if_splits)

lemma plainCall_length:
  assumes "plainCall s = Some r"
  shows "length r \<le> length s"
proof -
  from plainCall_Some [OF assms] obtain h where "s = h @ r" ..
  then show ?thesis by simp
qed

lemma dollarCall_length:
  assumes "dollarCall s = Some r"
  shows "length r \<le> length s"
proof -
  from dollarCall_Some [OF assms] obtain h where "s = h @ r" ..
  then show ?thesis by simp
qed

lemma quotedKey_length:
  assumes "quotedKey s = Some (body, rest)"
  shows "length rest < length s"
proof -
  from quotedKey_Some [OF assms] obtain q where "s = q # body @ q # rest" by blast
  then show ?thesis by simp
qed

lemma wordRun_length: "wordRun s = Some r \<Longrightarrow> length r \<le> length s"
  by (auto simp: wordRun_def length_dropWhile_le split: if_splits)

lemma dashedWords_length: "length (dashedWords s) \<le> length s"
proof (induction s rule: dashedWords.induct)
  case (1 s)
  show ?case
  proof (cases s)
    case Nil
    then show ?thesis by (simp add: dashedWords.simps [of "[]"])
  next
    case (Cons c cs)
    show ?thesis
    proof (cases "c = 45 \<and> takeWhile isWordChar cs \<noteq> []")
      case True
      with "1.IH" [OF Cons] have "length (dashedWords (dropWhile isWordChar cs))
          \<le> length (dropWhile isWordChar cs)"
        by simp
      also have "\<dots> \<le> length cs" by (rule length_dropWhile_le)
      finally have "length (dashedWords (dropWhile isWordChar cs)) \<le> length cs" .
      moreover have "dashedWords (c # cs) = dashedWords (dropWhile isWordChar cs)"
        using True by (subst dashedWords.simps) simp
      ultimately show ?thesis using Cons by simp
    next
      case False
      then have "dashedWords (c # cs) = c # cs"
        by (subst dashedWords.simps) auto
      with Cons show ?thesis by simp
    qed
  qed
qed

lemma interpolationPattern_progress:
  assumes "interpolationPattern prev s = Some (cap, rest)"
  shows "length rest < length s"
proof -
  from assms obtain s1 s2 where a: "expect (js ''{{'') s = Some s1"
    and b: "dollarCall (skipSpaces s1) = Some s2" and c: "quotedKey s2 = Some (cap, rest)"
    by (auto simp: interpolationPattern_def bind_eq_Some_conv)
  have "length rest < length s2" using c by (rule quotedKey_length)
  also have "length s2 \<le> length (skipSpaces s1)" using b by (rule dollarCall_length)
  also have "\<dots> \<le> length s1" by (rule skipSpaces_length)
  also have "\<dots> \<le> length s" using a by (rule expect_length)
  finally show ?thesis .
qed

lemma boundAttrPattern_progress:
  assumes "boundAttrPattern prev s = Some (cap, rest)"
  shows "length rest < length s"
proof -
  from assms obtain s1 s2 s3 s4 s5 where a: "expect (js '':'') s = Some s1"
    and b: "wordRun s1 = Some s2" and c: "expect (js ''='') (dashedWords s2) = Some s3"
    and d: "expectOneOf [34, 39] s3 = Some s4" and e: "dollarCall (skipSpaces s4) = Some s5"
    and f: "quotedKey s5 = Some (cap, rest)"
    by (auto simp: boundAttrPattern_def bind_eq_Some_conv)
  have "length rest < length s5" using f by (rule quotedKey_length)
  also have "length s5 \<le> length (skipSpaces s4)" using e by (rule dollarCall_length)
  also have "\<dots> \<le> length s4" by (rule skipSpaces_length)
  also have "\<dots> \<le> length s3" using d by (simp add: expectOneOf_length less_imp_le)
  also have "\<dots> \<le> length (dashedWords s2)" using c by (rule expect_length)
  also have "\<dots> \<le> length s2" by (rule dashedWords_length)
  also have "\<dots> \<le> length s1" using b by (rule wordRun_length)
  also have "\<dots> \<le> length s" using a by (rule expect_length)
  finally show ?thesis .
qed

lemma simplePattern_progress:
  assumes "simplePattern prev s = Some (cap, rest)"
  shows "length rest < length s"
proof -
  from assms obtain s1 where a: "plainCall s = Some s1" and c: "quotedKey s1 = Some (cap, rest)"
    by (auto simp: simplePattern_def bind_eq_Some_conv split: if_splits)
  have "length rest < length s1" using c by (rule quotedKey_length)
  also have "length s1 \<le> length s" using a by (rule plainCall_length)
  finally show ?thesis .
qed

lemma templateLiteralPattern_progress:
  assumes "templateLiteralPattern prev s = Some (cap, rest)"
  shows "length rest < length s"
proof -
  from templateLiteralPattern_Some [OF assms] obtain h where
    "s = h @ backtick # cap @ backtick # rest" by blast
  then show ?thesis by simp
qed

lemma scriptLiteralPattern_progress:
  assumes "scriptLiteralPattern prev s = Some (cap, rest)"
  shows "length rest < length s"
proof -
  from scriptLiteralPattern_Some [OF assms] obtain h where
    "s = h @ backtick # cap @ backtick # rest" by blast
  then show ?thesis by simp
qed

lemma textPattern_progress:
  assumes "textPattern prev s = Some (cap, rest)"
  shows "length rest < length s"
proof (cases s)
  case Nil
  with assms show ?thesis by (simp add: textPattern_def)
next
  case (Cons g cs)
  with assms have "rest = tl (dropWhile (\<lambda>c. c \<noteq> 60 \<and> c \<noteq> 123) cs)"
    by (simp add: textPattern_def Let_def split: if_splits)
  then have "length rest \<le> length (dropWhile (\<lambda>c. c \<noteq> 60 \<and> c \<noteq> 123) cs)"
    by simp
  also have "\<dots> \<le> length cs" by (rule length_dropWhile_le)
  finally show ?thesis using Cons by simp
qed

section \<open>Records of the extractor\<close>

lemma captures_member:
  "cap \<in> set (captures ms) \<Longrightarrow> \<exists>i m0. (i, m0, cap) \<in> set ms"
  by (fastforce simp: captures_def)

lemma staticKey_invariant: "cap \<noteq> [] \<Longrightarrow> keyInvariant (staticKey f n ctx cap)"
  by (simp add: keyInvariant_def staticKey_def)

lemma literalKey_invariant:
  assumes "cap \<noteq> []"
  shows "keyInvariant (literalKey f n ctx cap)"
proof (cases "includes_js cap (js ''${'')")
  case True
  then have "includes_js ([backtick] @ cap @ [backtick]) (js ''${'')"
    by (rule includes_js_context)
  with True show ?thesis
    by (simp add: keyInvariant_def literalKey_def)
next
  case False
  with assms show ?thesis
    by (simp add: literalKey_def staticKey_invariant)
qed

lemma templateLineKeys_invariant:
  assumes "k \<in> set (templateLineKeys f n line)"
  shows "keyInvariant k"
proof -
  from assms consider
      cap where "cap \<in> set (captures (execAll interpolationPattern None 0 line))"
        "k = staticKey f n Template cap"
    | cap where "cap \<in> set (captures (execAll boundAttrPattern None 0 line))"
        "k = staticKey f n Template cap"
    | cap where "cap \<in> set (captures (execAll templateLiteralPattern None 0 line))"
        "k = literalKey f n Template cap"
    by (auto simp: templateLineKeys_def)
  then show ?thesis
  proof cases
    case 1
    then obtain prev' s' rest where "interpolationPattern prev' s' = Some (cap, rest)"
      using captures_member execAll_capture by meson
    then have "cap \<noteq> []" by (rule interpolationPattern_capture)
    with 1 show ?thesis by (simp add: staticKey_invariant)
  next
    case 2
    then obtain prev' s' rest where "boundAttrPattern prev' s' = Some (cap, rest)"
      using captures_member execAll_capture by meson
    then have "cap \<noteq> []" by (rule boundAttrPattern_capture)
    with 2 show ?thesis by (simp add: staticKey_invariant)
  next
    case 3
    then obtain prev' s' rest where "templateLiteralPattern prev' s' = Some (cap, rest)"
      using captures_member execAll_capture by meson
    then have "cap \<noteq> []" by (simp add: templateLiteralPattern_Some)
    with 3 show ?thesis by (simp add: literalKey_invariant)
  qed
qed

lemma scriptLineKeys_invariant:
  assumes "k \<in> set (scriptLineKeys f n line)"
  shows "keyInvariant k"
proof -
  from assms consider
      cap where "cap \<in> set (captures (execAll simplePattern None 0 line))"
        "k = staticKey f n Script cap"
    | cap where "cap \<in> set (captures (execAll scriptLiteralPattern None 0 line))"
        "k = literalKey f n Script cap"
    by (auto simp: scriptLineKeys_def split: if_splits)
  then show ?thesis
  proof cases
    case 1
    then obtain prev' s' rest where "simplePattern prev' s' = Some (cap, rest)"
      using captures_member execAll_capture by meson
    then have "cap \<noteq> []" by (rule simplePattern_capture)
    with 1 show ?thesis by (simp add: staticKey_invariant)
  next
    case 2
    then obtain prev' s' rest where "scriptLiteralPattern prev' s' = Some (cap, rest)"
      using captures_member execAll_capture by meson
    then have "cap \<noteq> []" by (simp add: scriptLiteralPattern_Some)
    with 2 show ?thesis by (simp add: literalKey_invariant)
  qed
qed

lemma extractFromTemplate_invariant:
  "k \<in> set (extractFromTemplate tmpl f startLine) \<Longrightarrow> keyInvariant k"
  unfolding extractFromTemplate_def
  by (drule forLines_member) (auto dest: templateLineKeys_invariant)

lemma extractFromScript_invariant:
  assumes "k \<in> set (extractFromScript scr f startLine)"
  shows "keyInvariant k"
proof -
  from assms have "k \<in> set (forLines (\<lambda>i line. scriptLineKeys f
      (calculateSourceLine (int i + 1) startLine) line) 0 (splitLines scr))"
    by (simp add: extractFromScript_def split: if_splits)
  then show ?thesis
    by (drule_tac forLines_member) (auto dest: scriptLineKeys_invariant)
qed

text \<open>
  C9. Every record that \<open>extractTranslationKeys\<close> returns satisfies \<open>keyInvariant\<close>: a
  dynamic record has the empty key and a raw pattern that begins and ends with a
  backtick and contains \<open>${\<close>; a record that is not dynamic has a non-empty key and no raw
  pattern.
\<close>

theorem C9_key_invariant:
  "\<forall>k \<in> set (extractTranslationKeys parsed). keyInvariant k"
  by (auto simp: extractTranslationKeys_def
           dest: extractFromTemplate_invariant extractFromScript_invariant split: if_splits)

theorem C9_key_invariant_witness:
  "extractTranslationKeys
     \<lparr>sfc_filePath = js ''Page.vue'',
      sfc_template = Some (js ''<p>{{ t('a.b') }} {{ $t(`c.${d}`) }}</p>''), sfc_templateStartLine = 1,
      sfc_script = None, sfc_scriptStartLine = 1,
      sfc_scriptSetup = None, sfc_scriptSetupStartLine = 1\<rparr>
   = [staticKey (js ''Page.vue'') 2 Template (js ''a.b''),
      staticKey (js ''Page.vue'') 2 Template (js ''c.${d}''),
      \<lparr>tk_key = [], tk_file = js ''Page.vue'', tk_line = 2, tk_context = Template,
       tk_isDynamic = True, tk_rawPattern = Some (js ''`c.${d}`'')\<rparr>]
   \<and> keyInvariant (staticKey (js ''Page.vue'') 2 Template (js ''a.b''))
   \<and> keyInvariant \<lparr>tk_key = [], tk_file = js ''Page.vue'', tk_line = 2, tk_context = Template,
       tk_isDynamic = True, tk_rawPattern = Some (js ''`c.${d}`'')\<rparr>"
proof -
  let ?p = "\<lparr>sfc_filePath = js ''Page.vue'',
      sfc_template = Some (js ''<p>{{ t('a.b') }} {{ $t(`c.${d}`) }}</p>''), sfc_templateStartLine = 1,
      sfc_script = None, sfc_scriptStartLine = 1,
      sfc_scriptSetup = None, sfc_scriptSetupStartLine = 1\<rparr>"
  have e: "extractTranslationKeys ?p
   = [staticKey (js ''Page.vue'') 2 Template (js ''a.b''),
      staticKey (js ''Page.vue'') 2 Template (js ''c.${d}''),
      \<lparr>tk_key = [], tk_file = js ''Page.vue'', tk_line = 2, tk_context = Template,
       tk_isDynamic = True, tk_rawPattern = Some (js ''`c.${d}`'')\<rparr>]"
    by (simp add: extractor_eval js_eval pattern_eval)
  show ?thesis
    using C9_key_invariant [of ?p] unfolding e by simp
qed

section \<open>Dynamic call sites\<close>










section \<open>Where the scan finds a call with a template literal\<close>








































section \<open>The hardcoded-text filters\<close>

lemma compileAll_eq:
  "compileAll c ps =
   (if \<forall>p \<in> set ps. c p \<noteq> None then Some (map (\<lambda>p. RegExp (the (c p))) ps) else None)"
  by (induction ps) (auto split: option.splits)

lemma matchesExclusionPattern_iff:
  "matchesExclusionPattern t pats \<longleftrightarrow>
   (\<exists>x \<in> set pats. case x of Str p \<Rightarrow> startsWith t p | RegExp test \<Rightarrow> test t)"
  by (induction pats) (auto split: exclusion.splits)

lemma detectLoop_length_mono:
  assumes "\<And>t. matchesExclusionPattern t pats \<Longrightarrow> matchesExclusionPattern t pats'"
    and "minLength rules \<le> minLength rules'"
    and "excludeAllCaps rules' = excludeAllCaps rules"
  shows "length (detectLoop u r parsed rules' projectRoot pats' nodes)
         \<le> length (detectLoop u r parsed rules projectRoot pats nodes)"
proof (induction nodes)
  case Nil
  then show ?case by simp
next
  case (Cons node nodes)
  have "matchesExclusionPattern (tn_text node) pats \<Longrightarrow> matchesExclusionPattern (tn_text node) pats'"
    by (rule assms(1))
  with Cons assms(2,3) show ?case by auto
qed

lemma matches_added_pattern:
  "matchesExclusionPattern t (defaults @ map f (before @ after)) \<Longrightarrow>
   matchesExclusionPattern t (defaults @ map f (before @ p # after))"
  by (auto simp: matchesExclusionPattern_iff)

lemma detect_cases:
  "detectHardcodedStrings c u r parsed rules projectRoot =
   (if \<not> present (sfc_template parsed) then Inr []
    else if \<forall>q \<in> set (excludePatterns rules). c q \<noteq> None
      then Inr (detectLoop u r parsed rules projectRoot
                 (DEFAULT_EXCLUDE_PATTERNS @ map (\<lambda>p. RegExp (the (c p))) (excludePatterns rules))
                 (extractTextNodes (the (sfc_template parsed))))
      else Inl SyntaxError)"
  by (auto simp: detectHardcodedStrings_def compileAll_eq)

lemma added_pattern_fewer:
  "(\<forall>found'. detectHardcodedStrings c u r parsed (rules\<lparr>excludePatterns := before @ p # after\<rparr>) projectRoot = Inr found'
       \<longrightarrow> (\<exists>found. detectHardcodedStrings c u r parsed (rules\<lparr>excludePatterns := before @ after\<rparr>) projectRoot = Inr found
                   \<and> length found' \<le> length found))
   \<and> length (hardcodedIssues c u r parsed (rules\<lparr>excludePatterns := before @ p # after\<rparr>) projectRoot)
       \<le> length (hardcodedIssues c u r parsed (rules\<lparr>excludePatterns := before @ after\<rparr>) projectRoot)"
proof -
  let ?more = "rules\<lparr>excludePatterns := before @ p # after\<rparr>"
  let ?less = "rules\<lparr>excludePatterns := before @ after\<rparr>"
  let ?f = "\<lambda>p. RegExp (the (c p))"
  let ?nodes = "extractTextNodes (the (sfc_template parsed))"
  have pat: "length (detectLoop u r parsed ?more projectRoot
                 (DEFAULT_EXCLUDE_PATTERNS @ map ?f (before @ p # after)) ?nodes)
             \<le> length (detectLoop u r parsed ?less projectRoot
                 (DEFAULT_EXCLUDE_PATTERNS @ map ?f (before @ after)) ?nodes)"
  proof (rule detectLoop_length_mono)
    fix t
    assume "matchesExclusionPattern t (DEFAULT_EXCLUDE_PATTERNS @ map ?f (before @ after))"
    then show "matchesExclusionPattern t (DEFAULT_EXCLUDE_PATTERNS @ map ?f (before @ p # after))"
      by (rule matches_added_pattern)
  qed simp_all
  consider (absent) "\<not> present (sfc_template parsed)"
    | (throws) "present (sfc_template parsed)" "\<not> (\<forall>q \<in> set (before @ p # after). c q \<noteq> None)"
    | (compiles) "present (sfc_template parsed)" "\<forall>q \<in> set (before @ p # after). c q \<noteq> None"
    by blast
  then show ?thesis
  proof cases
    case absent
    then show ?thesis by (simp add: detect_cases hardcodedIssues_def)
  next
    case throws
    then have "detectHardcodedStrings c u r parsed ?more projectRoot = Inl SyntaxError"
      by (simp add: detect_cases)
    then show ?thesis by (simp add: hardcodedIssues_def)
  next
    case compiles
    then have l: "\<forall>q \<in> set (before @ after). c q \<noteq> None" by simp
    have m: "detectHardcodedStrings c u r parsed ?more projectRoot
             = Inr (detectLoop u r parsed ?more projectRoot
                 (DEFAULT_EXCLUDE_PATTERNS @ map ?f (before @ p # after)) ?nodes)"
      using compiles by (simp add: detect_cases)
    have n: "detectHardcodedStrings c u r parsed ?less projectRoot
             = Inr (detectLoop u r parsed ?less projectRoot
                 (DEFAULT_EXCLUDE_PATTERNS @ map ?f (before @ after)) ?nodes)"
      using compiles(1) l by (simp add: detect_cases)
    show ?thesis
      unfolding hardcodedIssues_def m n using pat by simp
  qed
qed

lemma smaller_minLength_more:
  assumes "smaller \<le> minLength rules"
  shows "(\<forall>found. detectHardcodedStrings c u r parsed rules projectRoot = Inr found
           \<longrightarrow> (\<exists>found'. detectHardcodedStrings c u r parsed (rules\<lparr>minLength := smaller\<rparr>) projectRoot = Inr found'
                        \<and> length found \<le> length found'))
        \<and> length (hardcodedIssues c u r parsed rules projectRoot)
            \<le> length (hardcodedIssues c u r parsed (rules\<lparr>minLength := smaller\<rparr>) projectRoot)"
proof -
  let ?f = "\<lambda>p. RegExp (the (c p))"
  let ?nodes = "extractTextNodes (the (sfc_template parsed))"
  let ?pats = "DEFAULT_EXCLUDE_PATTERNS @ map ?f (excludePatterns rules)"
  have len: "length (detectLoop u r parsed rules projectRoot ?pats ?nodes)
             \<le> length (detectLoop u r parsed (rules\<lparr>minLength := smaller\<rparr>) projectRoot ?pats ?nodes)"
    using assms by (intro detectLoop_length_mono) simp_all
  consider (absent) "\<not> present (sfc_template parsed)"
    | (throws) "present (sfc_template parsed)" "\<not> (\<forall>q \<in> set (excludePatterns rules). c q \<noteq> None)"
    | (compiles) "present (sfc_template parsed)" "\<forall>q \<in> set (excludePatterns rules). c q \<noteq> None"
    by blast
  then show ?thesis
  proof cases
    case absent
    then show ?thesis by (simp add: detect_cases hardcodedIssues_def)
  next
    case throws
    then have "detectHardcodedStrings c u r parsed rules projectRoot = Inl SyntaxError"
      and "detectHardcodedStrings c u r parsed (rules\<lparr>minLength := smaller\<rparr>) projectRoot = Inl SyntaxError"
      by (simp_all add: detect_cases)
    then show ?thesis by (simp add: hardcodedIssues_def)
  next
    case compiles
    have m: "detectHardcodedStrings c u r parsed rules projectRoot
             = Inr (detectLoop u r parsed rules projectRoot ?pats ?nodes)"
      using compiles by (simp add: detect_cases)
    have n: "detectHardcodedStrings c u r parsed (rules\<lparr>minLength := smaller\<rparr>) projectRoot
             = Inr (detectLoop u r parsed (rules\<lparr>minLength := smaller\<rparr>) projectRoot ?pats ?nodes)"
      using compiles by (simp add: detect_cases)
    show ?thesis
      unfolding hardcodedIssues_def m n using len by simp
  qed
qed

text \<open>
  C7. Adding one pattern to the exclusion patterns of the rules, at any position, never
  gives more candidates: when \<open>detectHardcodedStrings\<close> returns with the longer list it
  returns with the shorter one too, and with at least as many candidates; when the added
  pattern does not compile, \<open>detectHardcodedStrings\<close> throws and \<open>runAudit\<close> records no
  hardcoded-text issue for the file. Replacing \<open>minLength\<close> with a smaller value never
  gives fewer candidates.
\<close>

theorem C7_hardcoded_monotone:
  "(\<forall>found'. detectHardcodedStrings c u r parsed (rules\<lparr>excludePatterns := before @ p # after\<rparr>) projectRoot = Inr found'
       \<longrightarrow> (\<exists>found. detectHardcodedStrings c u r parsed (rules\<lparr>excludePatterns := before @ after\<rparr>) projectRoot = Inr found
                   \<and> length found' \<le> length found))
   \<and> length (hardcodedIssues c u r parsed (rules\<lparr>excludePatterns := before @ p # after\<rparr>) projectRoot)
       \<le> length (hardcodedIssues c u r parsed (rules\<lparr>excludePatterns := before @ after\<rparr>) projectRoot)
   \<and> (smaller \<le> minLength rules \<longrightarrow>
        (\<forall>found. detectHardcodedStrings c u r parsed rules projectRoot = Inr found
           \<longrightarrow> (\<exists>found'. detectHardcodedStrings c u r parsed (rules\<lparr>minLength := smaller\<rparr>) projectRoot = Inr found'
                        \<and> length found \<le> length found'))
        \<and> length (hardcodedIssues c u r parsed rules projectRoot)
            \<le> length (hardcodedIssues c u r parsed (rules\<lparr>minLength := smaller\<rparr>) projectRoot))"
proof (intro conjI impI)
  show "\<forall>found'. detectHardcodedStrings c u r parsed (rules\<lparr>excludePatterns := before @ p # after\<rparr>) projectRoot = Inr found'
       \<longrightarrow> (\<exists>found. detectHardcodedStrings c u r parsed (rules\<lparr>excludePatterns := before @ after\<rparr>) projectRoot = Inr found
                   \<and> length found' \<le> length found)"
    by (rule added_pattern_fewer [THEN conjunct1])
  show "length (hardcodedIssues c u r parsed (rules\<lparr>excludePatterns := before @ p # after\<rparr>) projectRoot)
       \<le> length (hardcodedIssues c u r parsed (rules\<lparr>excludePatterns := before @ after\<rparr>) projectRoot)"
    by (rule added_pattern_fewer [THEN conjunct2])
next
  assume s: "smaller \<le> minLength rules"
  show "\<forall>found. detectHardcodedStrings c u r parsed rules projectRoot = Inr found
           \<longrightarrow> (\<exists>found'. detectHardcodedStrings c u r parsed (rules\<lparr>minLength := smaller\<rparr>) projectRoot = Inr found'
                        \<and> length found \<le> length found')"
    by (rule smaller_minLength_more [OF s, THEN conjunct1])
  show "length (hardcodedIssues c u r parsed rules projectRoot)
            \<le> length (hardcodedIssues c u r parsed (rules\<lparr>minLength := smaller\<rparr>) projectRoot)"
    by (rule smaller_minLength_more [OF s, THEN conjunct2])
qed

theorem C7_hardcoded_monotone_witness:
  "detectHardcodedStrings
     (\<lambda>p. if p = js ''^Welcome'' then Some (\<lambda>t. startsWith t (js ''Welcome'')) else None)
     (map (\<lambda>ch. if 97 \<le> ch \<and> ch \<le> 122 then ch - 32 else ch))
     (\<lambda>root path. path)
     \<lparr>sfc_filePath = js ''Page.vue'',
      sfc_template = Some (js ''<h1>Welcome to Dashboard</h1><b>ok?</b>''), sfc_templateStartLine = 1,
      sfc_script = None, sfc_scriptStartLine = 1, sfc_scriptSetup = None, sfc_scriptSetupStartLine = 1\<rparr>
     (\<lparr>minLength = 4, excludeAllCaps = True, excludePatterns = []\<rparr>\<lparr>excludePatterns := [] @ js ''^Welcome'' # []\<rparr>)
     []
   = Inr []
   \<and> (\<exists>found. detectHardcodedStrings
     (\<lambda>p. if p = js ''^Welcome'' then Some (\<lambda>t. startsWith t (js ''Welcome'')) else None)
     (map (\<lambda>ch. if 97 \<le> ch \<and> ch \<le> 122 then ch - 32 else ch))
     (\<lambda>root path. path)
     \<lparr>sfc_filePath = js ''Page.vue'',
      sfc_template = Some (js ''<h1>Welcome to Dashboard</h1><b>ok?</b>''), sfc_templateStartLine = 1,
      sfc_script = None, sfc_scriptStartLine = 1, sfc_scriptSetup = None, sfc_scriptSetupStartLine = 1\<rparr>
     (\<lparr>minLength = 4, excludeAllCaps = True, excludePatterns = []\<rparr>\<lparr>excludePatterns := [] @ []\<rparr>)
     []
   = Inr found \<and> length found = 1)
   \<and> (3::int) \<le> minLength \<lparr>minLength = 4, excludeAllCaps = True, excludePatterns = []\<rparr>
   \<and> (\<exists>found'. detectHardcodedStrings
     (\<lambda>p. if p = js ''^Welcome'' then Some (\<lambda>t. startsWith t (js ''Welcome'')) else None)
     (map (\<lambda>ch. if 97 \<le> ch \<and> ch \<le> 122 then ch - 32 else ch))
     (\<lambda>root path. path)
     \<lparr>sfc_filePath = js ''Page.vue'',
      sfc_template = Some (js ''<h1>Welcome to Dashboard</h1><b>ok?</b>''), sfc_templateStartLine = 1,
      sfc_script = None, sfc_scriptStartLine = 1, sfc_scriptSetup = None, sfc_scriptSetupStartLine = 1\<rparr>
     (\<lparr>minLength = 4, excludeAllCaps = True, excludePatterns = []\<rparr>\<lparr>minLength := 3\<rparr>)
     []
   = Inr found' \<and> 1 \<le> length found')"
proof -
  let ?c = "\<lambda>p. if p = js ''^Welcome'' then Some (\<lambda>t. startsWith t (js ''Welcome'')) else None"
  let ?u = "map (\<lambda>ch::nat. if 97 \<le> ch \<and> ch \<le> 122 then ch - 32 else ch)"
  let ?r = "\<lambda>root path :: jsstring. path"
  let ?p = "\<lparr>sfc_filePath = js ''Page.vue'',
      sfc_template = Some (js ''<h1>Welcome to Dashboard</h1><b>ok?</b>''), sfc_templateStartLine = 1,
      sfc_script = None, sfc_scriptStartLine = 1, sfc_scriptSetup = None, sfc_scriptSetupStartLine = 1\<rparr>"
  let ?rules = "\<lparr>minLength = 4, excludeAllCaps = True, excludePatterns = []\<rparr>"
  have more: "detectHardcodedStrings ?c ?u ?r ?p (?rules\<lparr>excludePatterns := [] @ js ''^Welcome'' # []\<rparr>) [] = Inr []"
    by (simp add: hardcoded_eval js_eval pattern_eval present_def calculateSourceLine_def)
  have less: "detectHardcodedStrings ?c ?u ?r ?p ?rules []
    = Inr [\<lparr>hs_text = js ''Welcome to Dashboard'', hs_file = js ''Page.vue'', hs_line = 2,
            hs_confidence = High, hs_context = js ''<h1>Welcome to Dashboard</h1><b>ok?</b>''\<rparr>]"
    by (simp add: hardcoded_eval js_eval pattern_eval present_def calculateSourceLine_def)
  have le: "(3::int) \<le> minLength ?rules"
    by simp
  from C7_hardcoded_monotone [where c = ?c and u = ?u and r = ?r and parsed = ?p and rules = ?rules
      and before = "[]" and p = "js ''^Welcome''" and after = "[]" and projectRoot = "[]"
      and smaller = 3] more less le
  show ?thesis
    by simp
qed

section \<open>The coverage of the report\<close>

lemma countLoop_missing:
  "missingTranslations (countLoop counts issues) =
   missingTranslations counts + length (filter (\<lambda>i. ai_type i = missing_translation) issues)"
  by (induction issues arbitrary: counts) (auto split: issue_type.splits)

lemma countIssuesByType_missing:
  "missingTranslations (countIssuesByType issues) =
   length (filter (\<lambda>i. ai_type i = missing_translation) issues)"
  by (simp add: countIssuesByType_def countLoop_missing)

lemma hardcodedIssues_not_missing:
  "filter (\<lambda>i. ai_type i = missing_translation) (hardcodedIssues c u r parsed rules projectRoot) = []"
  by (auto simp: hardcodedIssues_def hardcodedIssue_def filter_empty_conv split: sum.splits)

text \<open>
  The \<open>missingTranslations\<close> counter counts call sites, not keys: one for every static
  call site whose key the lookup table lacks.
\<close>

lemma missing_issues_validateKeys:
  "length (filter (\<lambda>i. ai_type i = missing_translation)
     (validateKeys relative keys localeLookup projectRoot)) =
   length (filter (\<lambda>k. \<not> tk_isDynamic k \<and> localeLookup (tk_key k) = None) keys)"
  by (induction keys)
     (auto simp: dynamicKeyIssue_def missingTranslationIssue_def emptyValueIssue_def
           split: option.splits)

lemma countMissing_validateKeys:
  "missingTranslations (countIssuesByType
     (validateKeys relative keys localeLookup projectRoot
      @ hardcodedIssues c u r parsed rules projectRoot')) =
   length (filter (\<lambda>k. \<not> tk_isDynamic k \<and> localeLookup (tk_key k) = None) keys)"
  by (simp add: countIssuesByType_missing hardcodedIssues_not_missing missing_issues_validateKeys)

lemma mathRound_integer: "mathRound (of_int n) = n"
  by (simp add: mathRound_def floor_eq_iff)

text \<open>The coverage for one unique key and a counter of two, step by step.\<close>

lemma coverage_one_key_two_sites: "coveragePercentage (length [k]) 2 = - 100"
proof -
  have 1: "jsSub 1 2 = - 1" by (simp add: double_eval)
  have 2: "jsDiv (- 1) 1 = - 1" by (simp add: double_eval)
  have 3: "jsMul (- 1) 1000 = - 1000" by (simp add: double_eval)
  have 4: "mathRound (- 1000) = - 1000" by (simp add: mathRound_def floor_eq_iff)
  have 5: "jsDiv (- 1000) 10 = - 100" by (simp add: double_eval)
  show ?thesis
    unfolding coveragePercentage_def by (simp add: 1 2 3 4 5)
qed

text \<open>The coverage for one unique key that is missing once.\<close>

lemma coverage_one_key_missing: "coveragePercentage 1 1 = 0"
proof -
  have 1: "jsSub 1 1 = 0" by (simp add: double_eval)
  have 2: "jsDiv 0 1 = 0" by (simp add: double_eval)
  have 3: "jsMul 0 1000 = 0" by (simp add: double_eval)
  have 4: "mathRound 0 = 0" by (simp add: mathRound_def floor_eq_iff)
  have 5: "jsDiv 0 10 = 0" by (simp add: double_eval)
  show ?thesis
    unfolding coveragePercentage_def by (simp add: 1 2 3 4 5)
qed

text \<open>Rounding to a double, given the exponent and the side of the remainder.\<close>

lemma ilog2_ge1: "1 \<le> x \<Longrightarrow> \<lfloor>x\<rfloor> = n \<Longrightarrow> ilog2 x = int (bitLength n) - 1"
  by (simp add: ilog2_def)

lemma ilog2_lt1: "x < 1 \<Longrightarrow> \<lceil>1 / x\<rceil> = n \<Longrightarrow> ilog2 x = - int (bitLength (n - 1))"
  by (simp add: ilog2_def)

lemma toDouble_down:
  assumes "0 < x" and "ilog2 x = l" and "\<lfloor>x / pow2 (l - 52)\<rfloor> = f"
    and "x / pow2 (l - 52) - of_int f < 1 / 2"
  shows "toDouble x = of_int f * pow2 (l - 52)"
  using assms by (simp add: toDouble_def roundTiesToEven_def Let_def)

lemma toDouble_up:
  assumes "0 < x" and "ilog2 x = l" and "\<lfloor>x / pow2 (l - 52)\<rfloor> = f"
    and "1 / 2 < x / pow2 (l - 52) - of_int f"
  shows "toDouble x = of_int (f + 1) * pow2 (l - 52)"
  using assms by (simp add: toDouble_def roundTiesToEven_def Let_def)

lemma quotient_203_400: "jsDiv (jsSub 400 197) 400 = 4571153621781053 / 9007199254740992"
proof -
  have s: "jsSub 400 197 = 203"
    by (simp add: double_eval)
  have "toDouble (203 / 400) = of_int 4571153621781053 * pow2 (- 1 - 52)"
  proof (rule toDouble_down)
    show "ilog2 (203 / 400) = - 1"
      by (simp add: ilog2_lt1 [where n = 2] ceiling_eq_iff bitLength.simps)
    show "\<lfloor>(203 / 400 :: rat) / pow2 (- 1 - 52)\<rfloor> = 4571153621781053"
      by (simp add: pow2_def floor_eq_iff)
    show "(203 / 400 :: rat) / pow2 (- 1 - 52) - of_int 4571153621781053 < 1 / 2"
      by (simp add: pow2_def)
  qed simp
  thus ?thesis
    by (simp add: s jsDiv_def pow2_def)
qed

lemma scaled_203_400: "jsMul (4571153621781053 / 9007199254740992) 1000 = 8928034417541119 / 17592186044416"
proof -
  have "toDouble (4571153621781053 / 9007199254740992 * 1000) = of_int 8928034417541119 * pow2 (8 - 52)"
  proof (rule toDouble_down)
    show "ilog2 (4571153621781053 / 9007199254740992 * 1000) = 8"
      by (simp add: ilog2_ge1 [where n = 507] floor_eq_iff bitLength.simps)
    show "\<lfloor>(4571153621781053 / 9007199254740992 * 1000 :: rat) / pow2 (8 - 52)\<rfloor> = 8928034417541119"
      by (simp add: pow2_def floor_eq_iff)
    show "(4571153621781053 / 9007199254740992 * 1000 :: rat) / pow2 (8 - 52) - of_int 8928034417541119 < 1 / 2"
      by (simp add: pow2_def)
  qed simp
  thus ?thesis
    by (simp add: jsMul_def pow2_def)
qed

lemma tenths_203_400: "mathRound (8928034417541119 / 17592186044416) = 507"
  by (simp add: mathRound_def floor_eq_iff)

lemma jsDiv_507_10: "jsDiv 507 10 = 3567695329807565 / 70368744177664"
proof -
  have "toDouble (507 / 10) = of_int (7135390659615129 + 1) * pow2 (5 - 52)"
  proof (rule toDouble_up)
    show "ilog2 (507 / 10) = 5"
      by (simp add: ilog2_ge1 [where n = 50] floor_eq_iff bitLength.simps)
    show "\<lfloor>(507 / 10 :: rat) / pow2 (5 - 52)\<rfloor> = 7135390659615129"
      by (simp add: pow2_def floor_eq_iff)
    show "1 / 2 < (507 / 10 :: rat) / pow2 (5 - 52) - of_int 7135390659615129"
      by (simp add: pow2_def)
  qed simp
  thus ?thesis
    by (simp add: jsDiv_def pow2_def)
qed

text \<open>
  For 400 unique keys and a counter of 197 the quotient \<open>203 / 400\<close> is rounded down, its
  product with 1000 is the double just below 507.5, and the report says 50.7 (the double
  nearest to it), where the exact quotient gives 508 tenths.
\<close>

lemma coverage_400_197: "coveragePercentage 400 197 = 3567695329807565 / 70368744177664"
  unfolding coveragePercentage_def by (simp add: quotient_203_400 scaled_203_400 tenths_203_400 jsDiv_507_10)

lemma exact_tenths_400_197: "mathRound ((400 - 197) / 400 * 1000) = 508"
  by (simp add: mathRound_def floor_eq_iff)

text \<open>
  C4. The specification takes \<open>M\<close> to be the number of unique keys that the catalog lacks.
  The report subtracts the \<open>missingTranslations\<close> counter, which counts call sites
  (\<open>countMissing_validateKeys\<close>). For one file whose template calls \<open>t('a.b')\<close> twice and
  an empty catalog there is one unique key, it is missing, and the stated formula gives
  the coverage 0; the report says \<open>-100\<close>.
\<close>

theorem C4_coverage_counts_call_sites:
  "reportCoverage (\<lambda>p. None) (\<lambda>s. s) (\<lambda>root path. path)
     \<lparr>minLength = 3, excludeAllCaps = True, excludePatterns = []\<rparr> [] []
     [Inr \<lparr>sfc_filePath = js ''Page.vue'',
           sfc_template = Some (js ''{{ t('a.b') }} {{ t('a.b') }}''),
           sfc_templateStartLine = 1,
           sfc_script = None, sfc_scriptStartLine = 1,
           sfc_scriptSetup = None, sfc_scriptSetupStartLine = 1\<rparr>]
     = - 100
   \<and> getUniqueKeys (extractTranslationKeys
         \<lparr>sfc_filePath = js ''Page.vue'',
          sfc_template = Some (js ''{{ t('a.b') }} {{ t('a.b') }}''),
          sfc_templateStartLine = 1,
          sfc_script = None, sfc_scriptStartLine = 1,
          sfc_scriptSetup = None, sfc_scriptSetupStartLine = 1\<rparr>) = [js ''a.b'']
   \<and> missingUniqueKeys (extractTranslationKeys
         \<lparr>sfc_filePath = js ''Page.vue'',
          sfc_template = Some (js ''{{ t('a.b') }} {{ t('a.b') }}''),
          sfc_templateStartLine = 1,
          sfc_script = None, sfc_scriptStartLine = 1,
          sfc_scriptSetup = None, sfc_scriptSetupStartLine = 1\<rparr>) (createLocaleLookup []) = [js ''a.b'']
   \<and> coveragePercentage 1 1 = 0"
proof -
  let ?p = "\<lparr>sfc_filePath = js ''Page.vue'',
          sfc_template = Some (js ''{{ t('a.b') }} {{ t('a.b') }}''),
          sfc_templateStartLine = 1,
          sfc_script = None, sfc_scriptStartLine = 1,
          sfc_scriptSetup = None, sfc_scriptSetupStartLine = 1\<rparr>"
  have keys: "extractTranslationKeys ?p
      = [staticKey (js ''Page.vue'') 2 Template (js ''a.b''),
         staticKey (js ''Page.vue'') 2 Template (js ''a.b'')]"
    by (simp add: extractor_eval js_eval pattern_eval)
  let ?k = "staticKey (js ''Page.vue'') 2 Template (js ''a.b'')"
  let ?r = "\<lambda>root path :: jsstring. path"
  have lk: "createLocaleLookup [] = Map.empty"
    by (simp add: createLocaleLookup_def)
  have uniq': "getUniqueKeys [?k, ?k] = [js ''a.b'']"
    by (simp add: getUniqueKeys_def setAdd_def staticKey_def js_def)
  have uniq: "getUniqueKeys (extractTranslationKeys ?p) = [js ''a.b'']"
    unfolding keys by (rule uniq')
  have count: "missingTranslations (countIssuesByType
      (validateKeys ?r [?k, ?k] Map.empty []
       @ hardcodedIssues (\<lambda>p. None) (\<lambda>s. s) ?r ?p
           \<lparr>minLength = 3, excludeAllCaps = True, excludePatterns = []\<rparr> [])) = 2"
    by (simp only: countMissing_validateKeys) (simp add: staticKey_def)
  have aud: "auditFiles (\<lambda>p. None) (\<lambda>s. s) ?r
       \<lparr>minLength = 3, excludeAllCaps = True, excludePatterns = []\<rparr> [] Map.empty [Inr ?p]
     = ([?k, ?k], validateKeys ?r [?k, ?k] Map.empty []
          @ hardcodedIssues (\<lambda>p. None) (\<lambda>s. s) ?r ?p
              \<lparr>minLength = 3, excludeAllCaps = True, excludePatterns = []\<rparr> [])"
    by (simp add: keys del: validateKeys.simps)
  have "reportCoverage (\<lambda>p. None) (\<lambda>s. s) ?r
     \<lparr>minLength = 3, excludeAllCaps = True, excludePatterns = []\<rparr> [] [] [Inr ?p]
     = coveragePercentage (length [js ''a.b'']) 2"
    unfolding reportCoverage_def lk aud Let_def fst_conv snd_conv uniq' count ..
  also have "\<dots> = - 100"
    by (rule coverage_one_key_two_sites)
  finally have cov: "reportCoverage (\<lambda>p. None) (\<lambda>s. s) ?r
     \<lparr>minLength = 3, excludeAllCaps = True, excludePatterns = []\<rparr> [] [] [Inr ?p] = - 100" .
  have miss: "missingUniqueKeys (extractTranslationKeys ?p) (createLocaleLookup []) = [js ''a.b'']"
    unfolding missingUniqueKeys_def uniq lk by simp
  have spec: "coveragePercentage 1 1 = 0"
    by (rule coverage_one_key_missing)
  from cov uniq miss spec show ?thesis by simp
qed

end
